theory Spec2Isabelle
  imports Complex_Main "HOL-Library.Word"
begin

unbundle bit_operations_syntax

section \<open>Python values\<close>

text \<open>
  A Python \<open>str\<close> is a sequence of Unicode code points, and \<open>len\<close> counts code points,
  so a \<open>str\<close> is modelled as the list of its code points. \<open>str\<close> embeds an ASCII literal.
\<close>

type_synonym pystr = "nat list"

definition str :: "string \<Rightarrow> pystr" where
  "str s = map of_char s"

text \<open>
  The exceptions that the modelled code and the library calls it makes can raise. An
  exception of \<open>requests\<close> carries the number of the request it belongs to, so that the
  errors of different attempts can be told apart. \<open>Failed_after retries last_error\<close> is
  the plain \<open>Exception\<close> that \<open>generate_voiceover\<close> raises itself when all attempts have
  failed: it holds the two values that its message is formatted from, \<open>retries\<close> and
  \<open>last_error\<close> (of which the message shows \<open>str(last_error)\<close>), and nothing else.
\<close>

datatype exn =
    IndexError
  | KeyError
  | ValueError
  | UnicodeEncodeError
  | JSONDecodeError
  | AttributeError
  | BinasciiError
  | FileExistsError
  | FileNotFoundError
  | IsADirectoryError
  | NotADirectoryError
  | BrokenPipeError
  | RequestException nat
  | HTTPError nat
  | Failed_after int "exn option"

text \<open>
  \<open>xs[i]\<close>: a negative index counts from the end, and an index out of range raises
  \<open>IndexError\<close>.
\<close>

definition getitem :: "'a list \<Rightarrow> int \<Rightarrow> exn + 'a" where
  "getitem xs i =
     (if 0 \<le> i \<and> i < int (length xs) then Inr (xs ! nat i)
      else if i < 0 \<and> - int (length xs) \<le> i then Inr (xs ! nat (int (length xs) + i))
      else Inl IndexError)"

text \<open>
  \<open>str.isspace\<close> on one code point, and \<open>str.strip()\<close>, which removes the white space
  at both ends.
\<close>

definition isspace :: "nat \<Rightarrow> bool" where
  "isspace c \<longleftrightarrow>
     (9 \<le> c \<and> c \<le> 13) \<or> (28 \<le> c \<and> c \<le> 32) \<or> c = 133 \<or> c = 160 \<or> c = 5760 \<or>
     (8192 \<le> c \<and> c \<le> 8202) \<or> c = 8232 \<or> c = 8233 \<or> c = 8239 \<or> c = 8287 \<or> c = 12288"

definition strip :: "pystr \<Rightarrow> pystr" where
  "strip s = rev (dropWhile isspace (rev (dropWhile isspace s)))"

section \<open>Word timings from character timings\<close>

text \<open>
  The dictionary that \<open>_extract_word_timings\<close> builds for each word. Its keys \<open>text\<close>,
  \<open>start\<close> and \<open>end\<close> are the fields \<open>wt_text\<close>, \<open>wt_start\<close> and \<open>wt_end\<close>. The times
  are only copied, never computed with, so their type is a parameter; the index fields
  are Python integers (\<open>i - 1\<close> is written as the source writes it).
\<close>

record 't word_timing =
  wt_text :: pystr
  wt_start :: 't
  wt_end :: 't
  char_start_index :: int
  char_end_index :: int

text \<open>\<open>char in [' ', '\n', '\t']\<close>\<close>

definition is_separator :: "pystr \<Rightarrow> bool" where
  "is_separator char \<longleftrightarrow> char = [32] \<or> char = [10] \<or> char = [9]"

text \<open>
  The inner \<open>while\<close> loop:
  \<^verbatim>\<open>while next_char_idx < len(characters) and characters[next_char_idx] in [' ', '\n', '\t']:
      next_char_idx += 1\<close>
\<close>

function skip_whitespace :: "pystr list \<Rightarrow> nat \<Rightarrow> exn + nat" where
  "skip_whitespace characters next_char_idx =
     (if next_char_idx < length characters then
        (case getitem characters (int next_char_idx) of
           Inl e \<Rightarrow> Inl e
         | Inr c \<Rightarrow>
             if is_separator c then skip_whitespace characters (next_char_idx + 1)
             else Inr next_char_idx)
      else Inr next_char_idx)"
  by pat_completeness auto
termination
  by (relation "measure (\<lambda>(characters, next_char_idx). length characters - next_char_idx)") auto

declare skip_whitespace.simps [simp del]

text \<open>
  One iteration of \<open>for i, char in enumerate(characters)\<close> works on the pair of the
  list \<open>words\<close> and the dictionary \<open>current_word\<close>. Its white-space branch has two
  parts. The first ends the current word if it has content:
  \<open>words.append(current_word.copy())\<close> stores the value the dictionary has at that
  moment, and the dictionary itself, with the \<open>end\<close> and \<open>char_end_index\<close> just
  assigned, stays the current word.
\<close>

definition end_current_word ::
  "'t list \<Rightarrow> 't list \<Rightarrow> nat \<Rightarrow>
   't word_timing list \<times> 't word_timing \<Rightarrow> exn + ('t word_timing list \<times> 't word_timing)" where
  "end_current_word start_times end_times i st =
     (case st of (words, current_word) \<Rightarrow>
        if strip (wt_text current_word) \<noteq> [] then
          (case (if i > 0 then getitem end_times (int i - 1)
                 else getitem start_times (int i)) of
             Inl e \<Rightarrow> Inl e
           | Inr t \<Rightarrow>
               let cw = current_word\<lparr>wt_end := t, char_end_index := int i - 1\<rparr>
               in Inr (words @ [cw], cw))
        else Inr (words, current_word))"

text \<open>
  The second part skips the white space that follows and starts a new word at the next
  character, if there is one; otherwise \<open>current_word\<close> is left as it is.
\<close>

definition start_new_word ::
  "pystr list \<Rightarrow> 't::zero list \<Rightarrow> nat \<Rightarrow>
   't word_timing list \<times> 't word_timing \<Rightarrow> exn + ('t word_timing list \<times> 't word_timing)" where
  "start_new_word characters start_times i st =
     (case st of (words, current_word) \<Rightarrow>
        (case skip_whitespace characters (i + 1) of
           Inl e \<Rightarrow> Inl e
         | Inr next_char_idx \<Rightarrow>
             if next_char_idx < length characters then
               (case (if next_char_idx < length start_times
                      then getitem start_times (int next_char_idx) else Inr 0) of
                  Inl e \<Rightarrow> Inl e
                | Inr t \<Rightarrow>
                    Inr (words,
                         \<lparr>wt_text = [], wt_start = t, wt_end = 0,
                          char_start_index = int next_char_idx,
                          char_end_index = int next_char_idx\<rparr>))
             else Inr (words, current_word)))"

definition loop_body ::
  "pystr list \<Rightarrow> 't::zero list \<Rightarrow> 't list \<Rightarrow> nat \<Rightarrow> pystr \<Rightarrow>
   't word_timing list \<times> 't word_timing \<Rightarrow> exn + ('t word_timing list \<times> 't word_timing)" where
  "loop_body characters start_times end_times i char st =
     (if is_separator char then
        (case end_current_word start_times end_times i st of
           Inl e \<Rightarrow> Inl e
         | Inr st' \<Rightarrow> start_new_word characters start_times i st')
      else
        (case st of (words, current_word) \<Rightarrow>
           Inr (words, current_word\<lparr>wt_text := wt_text current_word @ char,
                                    char_end_index := int i\<rparr>)))"

fun for_loop ::
  "pystr list \<Rightarrow> 't::zero list \<Rightarrow> 't list \<Rightarrow> (nat \<times> pystr) list \<Rightarrow>
   't word_timing list \<times> 't word_timing \<Rightarrow> exn + ('t word_timing list \<times> 't word_timing)" where
  "for_loop characters start_times end_times [] st = Inr st"
| "for_loop characters start_times end_times ((i, char) # rest) st =
     (case loop_body characters start_times end_times i char st of
        Inl e \<Rightarrow> Inl e
      | Inr st' \<Rightarrow> for_loop characters start_times end_times rest st')"

definition extract_word_timings ::
  "pystr list \<Rightarrow> 't::zero list \<Rightarrow> 't list \<Rightarrow> exn + 't word_timing list" where
  "extract_word_timings characters start_times end_times =
     (if characters = [] \<or> start_times = [] \<or> end_times = [] then Inr []
      else
        (case (if start_times \<noteq> [] then getitem start_times 0 else Inr 0) of
           Inl e \<Rightarrow> Inl e
         | Inr t0 \<Rightarrow>
             (case for_loop characters start_times end_times (enumerate 0 characters)
                     ([], \<lparr>wt_text = [], wt_start = t0, wt_end = 0,
                           char_start_index = 0, char_end_index = 0\<rparr>) of
                Inl e \<Rightarrow> Inl e
              | Inr (words, current_word) \<Rightarrow>
                  if strip (wt_text current_word) \<noteq> [] then
                    (case (if end_times \<noteq> [] then getitem end_times (- 1) else Inr 0) of
                       Inl e \<Rightarrow> Inl e
                     | Inr t \<Rightarrow> Inr (words @ [current_word\<lparr>wt_end := t\<rparr>]))
                  else Inr words)))"


section \<open>The cache key\<close>

text \<open>
  \<open>json.dumps\<close> with its default \<open>ensure_ascii=True\<close> writes a string between double
  quotes and escapes the quote, the backslash and every character outside the printable
  ASCII range \<open>' '..'~'\<close>: the short escapes for \<open>\n \r \t \b \f\<close>, \<open>\uXXXX\<close> (lower-case
  hexadecimal) below \<open>0x10000\<close>, and a pair of surrogate escapes above.
\<close>

definition hex_digit :: "nat \<Rightarrow> nat" where
  "hex_digit d = (if d < 10 then 48 + d else 87 + d)"

definition hex4 :: "nat \<Rightarrow> pystr" where
  "hex4 n = [hex_digit (n div 4096 mod 16), hex_digit (n div 256 mod 16),
             hex_digit (n div 16 mod 16), hex_digit (n mod 16)]"

definition escape_char :: "nat \<Rightarrow> pystr" where
  "escape_char c =
     (if c = 34 then [92, 34]
      else if c = 92 then [92, 92]
      else if c = 10 then [92, 110]
      else if c = 13 then [92, 114]
      else if c = 9 then [92, 116]
      else if c = 8 then [92, 98]
      else if c = 12 then [92, 102]
      else if 32 \<le> c \<and> c \<le> 126 then [c]
      else if c < 65536 then [92, 117] @ hex4 c
      else [92, 117] @ hex4 (55296 + (c - 65536) div 1024 mod 1024) @
           [92, 117] @ hex4 (56320 + (c - 65536) mod 1024))"

definition json_string :: "pystr \<Rightarrow> pystr" where
  "json_string s = [34] @ concat (map escape_char s) @ [34]"

text \<open>
  \<open>json.dumps({"text": text, "voice_id": voice_id, "service": "elevenlabs_timed"},
  sort_keys=True)\<close>: the keys in sorted order, with the default separators.
\<close>

definition dumps_cache_data :: "pystr \<Rightarrow> pystr \<Rightarrow> pystr" where
  \<open>dumps_cache_data text voice_id =
     str ''{"service": "elevenlabs_timed", "text": '' @ json_string text @
     str '', "voice_id": '' @ json_string voice_id @ str ''}''\<close>

text \<open>\<open>str.encode('utf-8')\<close>, which raises on a surrogate code point.\<close>

definition utf8_char :: "nat \<Rightarrow> exn + nat list" where
  "utf8_char c =
     (if c < 128 then Inr [c]
      else if c < 2048 then Inr [192 + c div 64, 128 + c mod 64]
      else if 55296 \<le> c \<and> c \<le> 57343 then Inl UnicodeEncodeError
      else if c < 65536 then Inr [224 + c div 4096, 128 + c div 64 mod 64, 128 + c mod 64]
      else Inr [240 + c div 262144, 128 + c div 4096 mod 64, 128 + c div 64 mod 64,
                128 + c mod 64])"

fun encode_utf8 :: "pystr \<Rightarrow> exn + nat list" where
  "encode_utf8 [] = Inr []"
| "encode_utf8 (c # s) =
     (case utf8_char c of
        Inl e \<Rightarrow> Inl e
      | Inr bs \<Rightarrow> (case encode_utf8 s of Inl e \<Rightarrow> Inl e | Inr rest \<Rightarrow> Inr (bs @ rest)))"

text \<open>
  \<open>hashlib.sha256(...).hexdigest()\<close>: SHA-256 as in FIPS 180-4 on a list of bytes, and the
  digest as 64 lower-case hexadecimal digits.
\<close>

definition rotr :: "nat \<Rightarrow> 32 word \<Rightarrow> 32 word" where
  "rotr n x = drop_bit n x OR push_bit (32 - n) x"

definition Ch :: "32 word \<Rightarrow> 32 word \<Rightarrow> 32 word \<Rightarrow> 32 word" where
  "Ch x y z = (x AND y) XOR (NOT x AND z)"

definition Maj :: "32 word \<Rightarrow> 32 word \<Rightarrow> 32 word \<Rightarrow> 32 word" where
  "Maj x y z = (x AND y) XOR (x AND z) XOR (y AND z)"

definition Sigma0 :: "32 word \<Rightarrow> 32 word" where
  "Sigma0 x = rotr 2 x XOR rotr 13 x XOR rotr 22 x"

definition Sigma1 :: "32 word \<Rightarrow> 32 word" where
  "Sigma1 x = rotr 6 x XOR rotr 11 x XOR rotr 25 x"

definition sigma0 :: "32 word \<Rightarrow> 32 word" where
  "sigma0 x = rotr 7 x XOR rotr 18 x XOR drop_bit 3 x"

definition sigma1 :: "32 word \<Rightarrow> 32 word" where
  "sigma1 x = rotr 17 x XOR rotr 19 x XOR drop_bit 10 x"

definition K256 :: "32 word list" where
  "K256 =
    [0x428A2F98, 0x71374491, 0xB5C0FBCF, 0xE9B5DBA5, 0x3956C25B, 0x59F111F1,
     0x923F82A4, 0xAB1C5ED5, 0xD807AA98, 0x12835B01, 0x243185BE, 0x550C7DC3,
     0x72BE5D74, 0x80DEB1FE, 0x9BDC06A7, 0xC19BF174, 0xE49B69C1, 0xEFBE4786,
     0x0FC19DC6, 0x240CA1CC, 0x2DE92C6F, 0x4A7484AA, 0x5CB0A9DC, 0x76F988DA,
     0x983E5152, 0xA831C66D, 0xB00327C8, 0xBF597FC7, 0xC6E00BF3, 0xD5A79147,
     0x06CA6351, 0x14292967, 0x27B70A85, 0x2E1B2138, 0x4D2C6DFC, 0x53380D13,
     0x650A7354, 0x766A0ABB, 0x81C2C92E, 0x92722C85, 0xA2BFE8A1, 0xA81A664B,
     0xC24B8B70, 0xC76C51A3, 0xD192E819, 0xD6990624, 0xF40E3585, 0x106AA070,
     0x19A4C116, 0x1E376C08, 0x2748774C, 0x34B0BCB5, 0x391C0CB3, 0x4ED8AA4A,
     0x5B9CCA4F, 0x682E6FF3, 0x748F82EE, 0x78A5636F, 0x84C87814, 0x8CC70208,
     0x90BEFFFA, 0xA4506CEB, 0xBEF9A3F7, 0xC67178F2]"

definition H256 :: "32 word list" where
  "H256 =
    [0x6A09E667, 0xBB67AE85, 0x3C6EF372, 0xA54FF53A,
     0x510E527F, 0x9B05688C, 0x1F83D9AB, 0x5BE0CD19]"

fun be_bytes :: "nat \<Rightarrow> nat \<Rightarrow> nat list" where
  "be_bytes 0 n = []"
| "be_bytes (Suc k) n = be_bytes k (n div 256) @ [n mod 256]"

definition pad :: "nat list \<Rightarrow> nat list" where
  "pad m = m @ [128] @ replicate ((119 - length m mod 64) mod 64) 0 @ be_bytes 8 (8 * length m)"

fun words_of :: "nat list \<Rightarrow> 32 word list" where
  "words_of (a # b # c # d # bs) =
     of_nat (((a * 256 + b) * 256 + c) * 256 + d) # words_of bs"
| "words_of _ = []"

fun schedule :: "nat \<Rightarrow> 32 word list \<Rightarrow> 32 word list" where
  "schedule 0 ws = ws"
| "schedule (Suc n) ws =
     schedule n (ws @ [sigma1 (ws ! (length ws - 2)) + ws ! (length ws - 7) +
                       sigma0 (ws ! (length ws - 15)) + ws ! (length ws - 16)])"

fun round256 :: "32 word \<times> 32 word \<Rightarrow> 32 word list \<Rightarrow> 32 word list" where
  "round256 (k, w) [a, b, c, d, e, f, g, h] =
     (let t1 = h + Sigma1 e + Ch e f g + k + w; t2 = Sigma0 a + Maj a b c
      in [t1 + t2, a, b, c, d + t1, e, f, g])"
| "round256 _ s = s"

definition compress :: "32 word list \<Rightarrow> 32 word list \<Rightarrow> 32 word list" where
  "compress hs block = map2 (+) hs (fold round256 (zip K256 (schedule 48 block)) hs)"

fun blocks_of :: "32 word list \<Rightarrow> 32 word list list" where
  "blocks_of ws = (if length ws < 16 then [] else take 16 ws # blocks_of (drop 16 ws))"

declare blocks_of.simps [simp del]

definition sha256 :: "nat list \<Rightarrow> 32 word list" where
  "sha256 m = fold (\<lambda>block hs. compress hs block) (blocks_of (words_of (pad m))) H256"

definition hex8 :: "32 word \<Rightarrow> pystr" where
  "hex8 w = hex4 (unat w div 65536) @ hex4 (unat w mod 65536)"

definition hexdigest :: "32 word list \<Rightarrow> pystr" where
  "hexdigest hs = concat (map hex8 hs)"

text \<open>
  \<open>_get_cache_key\<close>:
  \<^verbatim>\<open>data = {"text": text, "voice_id": voice_id, "service": "elevenlabs_timed"}
  data_str = json.dumps(data, sort_keys=True)
  return hashlib.sha256(data_str.encode('utf-8')).hexdigest()\<close>
\<close>

definition get_cache_key :: "pystr \<Rightarrow> pystr \<Rightarrow> exn + pystr" where
  "get_cache_key text voice_id =
     (case encode_utf8 (dumps_cache_data text voice_id) of
        Inl e \<Rightarrow> Inl e
      | Inr data \<Rightarrow> Inr (hexdigest (sha256 data)))"

section \<open>The cost estimate\<close>

text \<open>
  \<open>_calculate_cost\<close>: \<open>len(text) * 0.0003\<close>, a product of an integer and a float that
  Python computes in IEEE double arithmetic. The type of floats and the product are
  parameters: \<open>times_rate n\<close> stands for the float \<open>n * 0.0003\<close>.
\<close>

definition calculate_cost :: "(nat \<Rightarrow> 'c) \<Rightarrow> pystr \<Rightarrow> 'c" where
  "calculate_cost times_rate text = times_rate (length text)"

section \<open>Files, environment and the speech service\<close>

text \<open>
  A \<open>pathlib.Path\<close> is the list of its components, \<open>p.parent\<close> drops the last one and
  \<open>p / name\<close> appends one. The file system maps a path to a file with its content or to
  a directory. The world a call runs in is the file system together with the number of
  HTTP requests made so far.
\<close>

type_synonym path = "pystr list"

datatype node = File pystr | Dir

type_synonym filesystem = "path \<Rightarrow> node option"

record world =
  fs :: filesystem
  posts :: nat

text \<open>
  A computation that reads and changes the world and either raises or returns: the
  result is paired with the world it leaves, so what was written before an exception
  stays written.
\<close>

type_synonym 'a io = "world \<Rightarrow> (exn + 'a) \<times> world"

definition return_io :: "'a \<Rightarrow> 'a io" where
  "return_io x w = (Inr x, w)"

definition raise_io :: "exn \<Rightarrow> 'a io" where
  "raise_io e w = (Inl e, w)"

definition lift_io :: "exn + 'a \<Rightarrow> 'a io" where
  "lift_io r w = (r, w)"

definition bind_io :: "'a io \<Rightarrow> ('a \<Rightarrow> 'b io) \<Rightarrow> 'b io" where
  "bind_io m f w = (case m w of (Inl e, w') \<Rightarrow> (Inl e, w') | (Inr x, w') \<Rightarrow> f x w')"

definition parent :: "path \<Rightarrow> path" where
  "parent p = butlast p"

text \<open>\<open>p.name\<close>: the last component, and the empty string for a path without components.\<close>

definition name_of :: "path \<Rightarrow> pystr" where
  "name_of p = (if p = [] then [] else last p)"

definition path_exists :: "filesystem \<Rightarrow> path \<Rightarrow> bool" where
  "path_exists files p \<longleftrightarrow> files p \<noteq> None"

definition read_text :: "filesystem \<Rightarrow> path \<Rightarrow> exn + pystr" where
  "read_text files p =
     (case files p of
        None \<Rightarrow> Inl FileNotFoundError
      | Some Dir \<Rightarrow> Inl IsADirectoryError
      | Some (File content) \<Rightarrow> Inr content)"

text \<open>
  \<open>p.write_bytes(data)\<close> and \<open>p.write_text(data)\<close>: the file is created or replaced; the
  call raises if \<open>p\<close> is a directory, or if its parent is missing or is a file.
\<close>

definition write_file :: "path \<Rightarrow> pystr \<Rightarrow> unit io" where
  "write_file p data w =
     (if fs w p = Some Dir then (Inl IsADirectoryError, w)
      else
        (case fs w (parent p) of
           None \<Rightarrow> (Inl FileNotFoundError, w)
         | Some (File content) \<Rightarrow> (Inl NotADirectoryError, w)
         | Some Dir \<Rightarrow> (Inr (), w\<lparr>fs := (fs w)(p \<mapsto> File data)\<rparr>)))"

text \<open>
  \<open>p.mkdir(parents=True, exist_ok=True)\<close>: every missing directory on the way to \<open>p\<close> is
  created; the call raises \<open>FileExistsError\<close> if \<open>p\<close> is a file and \<open>NotADirectoryError\<close> if
  one of its ancestors is. \<open>make_dirs files d cs\<close> walks down from \<open>d\<close> along the
  components \<open>cs\<close>.
\<close>

fun make_dirs :: "filesystem \<Rightarrow> path \<Rightarrow> pystr list \<Rightarrow> exn + filesystem" where
  "make_dirs files d [] =
     (case files d of
        Some (File content) \<Rightarrow> Inl FileExistsError
      | _ \<Rightarrow> Inr (files(d \<mapsto> Dir)))"
| "make_dirs files d (c # cs) =
     (case files d of
        Some (File content) \<Rightarrow> Inl NotADirectoryError
      | _ \<Rightarrow> make_dirs (files(d \<mapsto> Dir)) (d @ [c]) cs)"

definition mkdir_parents :: "path \<Rightarrow> unit io" where
  "mkdir_parents p w =
     (case make_dirs (fs w) [] p of
        Inl e \<Rightarrow> (Inl e, w)
      | Inr files \<Rightarrow> (Inr (), w\<lparr>fs := files\<rparr>))"

text \<open>
  \<open>p.suffix\<close> of a file name, from the last dot on, when that dot is neither the first nor
  the last character; and \<open>p.with_suffix(suffix)\<close>, which raises on a path with an empty
  name.
\<close>

definition suffix_of :: "pystr \<Rightarrow> pystr" where
  "suffix_of name =
     (let i = length name - 1 - length (takeWhile (\<lambda>c. c \<noteq> 46) (rev name))
      in if 46 \<in> set name \<and> 0 < i \<and> i < length name - 1 then drop i name else [])"

definition with_suffix :: "path \<Rightarrow> pystr \<Rightarrow> exn + path" where
  "with_suffix p suffix =
     (if p = [] \<or> last p = [] then Inl ValueError
      else
        let name = last p; old_suffix = suffix_of name
        in if old_suffix = [] then Inr (butlast p @ [name @ suffix])
           else Inr (butlast p @ [take (length name - length old_suffix) name @ suffix]))"

text \<open>
  The alignment object of the service's response, the timing data this program stores
  beside the audio, and the response body. Every key may be absent (\<open>None\<close>); a key that is
  present holds a value of the type the source annotates (\<open>List[str]\<close>, \<open>List[float]\<close>).
  The alignment keys are \<open>characters\<close>, \<open>character_start_times_seconds\<close> and
  \<open>character_end_times_seconds\<close>; the timing data keys are \<open>text\<close>, \<open>word_timings\<close> and
  \<open>character_alignment\<close>.
\<close>

record 't alignment =
  al_characters :: "pystr list option"
  al_character_start_times_seconds :: "'t list option"
  al_character_end_times_seconds :: "'t list option"

record 't timing_data =
  td_text :: "pystr option"
  td_word_timings :: "'t word_timing list option"
  td_character_alignment :: "'t alignment option"

text \<open>What \<open>json.loads\<close> returns for the text of a timing file: a dictionary or another value.\<close>

datatype 't json = Json_object "'t timing_data" | Json_other

record 't response_json =
  audio_base64 :: "pystr option"
  alignment :: "'t alignment option"

text \<open>
  What one \<open>requests.post\<close> leads to: the call raises (connection error, timeout),
  \<open>raise_for_status()\<close> raises (a status that is not a success), \<open>response.json()\<close> raises
  (the body is not JSON), or the body is a JSON object.
\<close>

datatype 't response =
    Post_raises exn
  | Status_raises exn
  | Json_raises exn
  | Json_body "'t response_json"

text \<open>
  The progress messages that the function prints, each with the values that its
  f-string interpolates:
  \<^verbatim>\<open>Using cached audio for: {text[:50]}...
  Cache read error: {e}, regenerating...
  Generating audio (attempt {attempt + 1}/{retries}): {text[:50]}...
  Audio saved: {output_path.name} ({len(audio_bytes)} bytes)
  Cost: ${cost:.4f} ({len(text)} characters)
  Attempt {attempt + 1} failed: {e}
  Retrying...\<close>
\<close>

datatype 'c message =
    Using_cached pystr
  | Cache_read_error exn
  | Generating nat int pystr
  | Audio_saved pystr nat
  | Cost_message 'c nat
  | Attempt_failed nat exn
  | Retrying

text \<open>
  What the function takes from outside: the environment variables, the library functions
  \<open>json.loads\<close>, \<open>json.dumps(timing_data, indent=2)\<close> and \<open>base64.b64decode\<close>, the float
  product \<open>n * 0.0003\<close>, the service, which answers the \<open>n\<close>-th request (all requests of
  one call are identical), and the standard output: \<open>print ext m\<close> is the exception that
  printing the message \<open>m\<close> raises (a text that the encoding of the output does not have,
  a closed pipe), or \<open>None\<close> when the message is printed. What is printed is not recorded.
\<close>

record ('t, 'c) externals =
  getenv :: "pystr \<Rightarrow> pystr option"
  json_loads :: "pystr \<Rightarrow> exn + 't json"
  json_dumps :: "'t timing_data \<Rightarrow> pystr"
  b64decode :: "pystr \<Rightarrow> exn + pystr"
  times_rate :: "nat \<Rightarrow> 'c"
  post :: "nat \<Rightarrow> 't response"
  print :: "'c message \<Rightarrow> exn option"

text \<open>The dictionary that \<open>generate_voiceover\<close> returns.\<close>

record ('t, 'c) voiceover_result =
  audio_path :: path
  word_timings :: "'t word_timing list"
  character_alignment :: "'t alignment"
  cost :: 'c
  character_count :: nat
  from_cache :: bool

section \<open>Voiceover generation\<close>

text \<open>
  \<open>a or b\<close> on values that are \<open>None\<close> or a string, and the API key:
  \<^verbatim>\<open>os.getenv('ELEVENLABS_API_KEY') or os.getenv('elevenlabs_key') or
  os.getenv('ELEVENLABS_KEY') or os.getenv('ELEVEN_API_KEY')\<close>
\<close>

definition truthy :: "pystr option \<Rightarrow> bool" where
  "truthy v \<longleftrightarrow> v \<noteq> None \<and> v \<noteq> Some []"

definition py_or :: "pystr option \<Rightarrow> pystr option \<Rightarrow> pystr option" where
  "py_or a b = (if truthy a then a else b)"

definition get_api_key :: "(pystr \<Rightarrow> pystr option) \<Rightarrow> pystr option" where
  "get_api_key env =
     py_or (py_or (py_or (env (str ''ELEVENLABS_API_KEY'')) (env (str ''elevenlabs_key'')))
                  (env (str ''ELEVENLABS_KEY'')))
           (env (str ''ELEVEN_API_KEY''))"

text \<open>\<open>d.get(key, default)\<close> on a key that may be absent, and the empty dictionary \<open>{}\<close>.\<close>

definition get_or :: "'a option \<Rightarrow> 'a \<Rightarrow> 'a" where
  "get_or v fallback = (case v of None \<Rightarrow> fallback | Some x \<Rightarrow> x)"

definition empty_alignment :: "'t alignment" where
  "empty_alignment =
     \<lparr>al_characters = None, al_character_start_times_seconds = None,
      al_character_end_times_seconds = None\<rparr>"

text \<open>\<open>print(m)\<close>: raises what the standard output raises, and changes nothing else.\<close>

definition print_io :: "('t, 'c) externals \<Rightarrow> 'c message \<Rightarrow> unit io" where
  "print_io ext m w = (case print ext m of Some e \<Rightarrow> (Inl e, w) | None \<Rightarrow> (Inr (), w))"

text \<open>
  The body of the \<open>try\<close> that reads the cache: \<open>timing_data.get\<close> raises \<open>AttributeError\<close>
  when the parsed value is not a dictionary.
\<close>

definition read_cached ::
  "('t, 'c) externals \<Rightarrow> filesystem \<Rightarrow> pystr \<Rightarrow> path \<Rightarrow> path \<Rightarrow>
   exn + ('t, 'c) voiceover_result" where
  "read_cached ext files text cached_audio cached_timing =
     (case read_text files cached_timing of
        Inl e \<Rightarrow> Inl e
      | Inr content \<Rightarrow>
          (case json_loads ext content of
             Inl e \<Rightarrow> Inl e
           | Inr Json_other \<Rightarrow> Inl AttributeError
           | Inr (Json_object timing_data) \<Rightarrow>
               Inr \<lparr>audio_path = cached_audio,
                    word_timings = get_or (td_word_timings timing_data) [],
                    character_alignment =
                      get_or (td_character_alignment timing_data) empty_alignment,
                    cost = calculate_cost (times_rate ext) text,
                    character_count = length text,
                    from_cache = True\<rparr>))"

text \<open>
  The cache check:
  \<^verbatim>\<open>if cached_audio.exists() and cached_timing.exists():
      print(f"... Using cached audio for: {text[:50]}...")
      try: ... return {...}
      except Exception as e:
          print(f"... Cache read error: {e}, regenerating...")\<close>
  The first \<open>print\<close> is outside the \<open>try\<close> and the second is in the handler, so what either
  raises leaves the function. The check gives the result to return at once, or \<open>None\<close> to
  go on to the synthesis.
\<close>

definition check_cache ::
  "('t, 'c) externals \<Rightarrow> pystr \<Rightarrow> path \<Rightarrow> path \<Rightarrow> ('t, 'c) voiceover_result option io" where
  "check_cache ext text cached_audio cached_timing w =
     (if path_exists (fs w) cached_audio \<and> path_exists (fs w) cached_timing then
        bind_io (print_io ext (Using_cached (take 50 text)))
          (\<lambda>_ w'.
             case read_cached ext (fs w') text cached_audio cached_timing of
               Inr r \<Rightarrow> (Inr (Some r), w')
             | Inl e \<Rightarrow>
                 bind_io (print_io ext (Cache_read_error e)) (\<lambda>_. return_io None) w') w
      else (Inr None, w))"

text \<open>\<open>requests.post\<close>, \<open>raise_for_status()\<close> and \<open>response.json()\<close> of one attempt.\<close>

definition request_json :: "('t, 'c) externals \<Rightarrow> 't response_json io" where
  "request_json ext w =
     (let w' = w\<lparr>posts := posts w + 1\<rparr>
      in case post ext (posts w) of
           Post_raises e \<Rightarrow> (Inl e, w')
         | Status_raises e \<Rightarrow> (Inl e, w')
         | Json_raises e \<Rightarrow> (Inl e, w')
         | Json_body result \<Rightarrow> (Inr result, w'))"

text \<open>\<open>result['audio_base64']\<close>\<close>

definition subscript_audio_base64 :: "'t response_json \<Rightarrow> exn + pystr" where
  "subscript_audio_base64 result =
     (case audio_base64 result of None \<Rightarrow> Inl KeyError | Some v \<Rightarrow> Inr v)"

text \<open>
  \<^verbatim>\<open>if not cached_audio.exists():
      cached_audio.write_bytes(audio_bytes)
      cached_timing.write_text(json.dumps(timing_data, indent=2))\<close>
\<close>

definition cache_for_future_use :: "path \<Rightarrow> path \<Rightarrow> pystr \<Rightarrow> pystr \<Rightarrow> unit io" where
  "cache_for_future_use cached_audio cached_timing audio_bytes timing_text w =
     (if \<not> path_exists (fs w) cached_audio then
        bind_io (write_file cached_audio audio_bytes)
          (\<lambda>_. write_file cached_timing timing_text) w
      else (Inr (), w))"

text \<open>
  The body of the \<open>try\<close> of one synthesis attempt, with its three \<open>print\<close> statements:
  before the request, after the audio is written, and before the result is returned.
\<close>

definition attempt_body ::
  "('t::zero, 'c) externals \<Rightarrow> pystr \<Rightarrow> path \<Rightarrow> path \<Rightarrow> path \<Rightarrow> int \<Rightarrow> nat \<Rightarrow>
   ('t, 'c) voiceover_result io" where
  "attempt_body ext text output_path cached_audio cached_timing retries attempt =
     bind_io (print_io ext (Generating (attempt + 1) retries (take 50 text))) (\<lambda>_.
     bind_io (request_json ext) (\<lambda>result.
     bind_io (lift_io (subscript_audio_base64 result)) (\<lambda>encoded.
     bind_io (lift_io (b64decode ext encoded)) (\<lambda>audio_bytes.
     bind_io (write_file output_path audio_bytes) (\<lambda>_.
     bind_io (print_io ext (Audio_saved (name_of output_path) (length audio_bytes))) (\<lambda>_.
     let align = get_or (alignment result) empty_alignment;
         characters = get_or (al_characters align) [];
         char_start_times = get_or (al_character_start_times_seconds align) [];
         char_end_times = get_or (al_character_end_times_seconds align) []
     in
     bind_io (lift_io (extract_word_timings characters char_start_times char_end_times)) (\<lambda>wts.
     let timing_data =
           \<lparr>td_text = Some text, td_word_timings = Some wts,
            td_character_alignment = Some align\<rparr>
     in
     bind_io (lift_io (with_suffix output_path (str ''.timing.json''))) (\<lambda>timing_file.
     bind_io (write_file timing_file (json_dumps ext timing_data)) (\<lambda>_.
     bind_io (cache_for_future_use cached_audio cached_timing audio_bytes
                (json_dumps ext timing_data)) (\<lambda>_.
     bind_io (print_io ext (Cost_message (calculate_cost (times_rate ext) text)
                (length text))) (\<lambda>_.
     return_io
       \<lparr>audio_path = output_path,
        word_timings = wts,
        character_alignment = align,
        cost = calculate_cost (times_rate ext) text,
        character_count = length text,
        from_cache = False\<rparr>)))))))))))"

text \<open>
  \<^verbatim>\<open>last_error = None
  for attempt in range(retries):
      try: ... return {...}
      except Exception as e:
          last_error = e
          print(f"... Attempt {attempt + 1} failed: {e}")
          if attempt < retries - 1:
              print(f"... Retrying...")
              continue
  raise Exception(f"Failed to generate voiceover after {retries} attempts: {last_error}")\<close>
  What a \<open>print\<close> of the handler raises leaves the function. The exception raised at the
  end is \<open>Failed_after retries last_error\<close>.
\<close>

fun retry_loop ::
  "('c message \<Rightarrow> exn option) \<Rightarrow> (nat \<Rightarrow> 'a io) \<Rightarrow> int \<Rightarrow> nat list \<Rightarrow> exn option \<Rightarrow> 'a io" where
  "retry_loop prnt body retries [] last_error w = (Inl (Failed_after retries last_error), w)"
| "retry_loop prnt body retries (attempt # rest) last_error w =
     (case body attempt w of
        (Inr r, w') \<Rightarrow> (Inr r, w')
      | (Inl e, w') \<Rightarrow>
          (case prnt (Attempt_failed (attempt + 1) e) of
             Some e' \<Rightarrow> (Inl e', w')
           | None \<Rightarrow>
               if int attempt < retries - 1 then
                 (case prnt Retrying of
                    Some e' \<Rightarrow> (Inl e', w')
                  | None \<Rightarrow> retry_loop prnt body retries rest (Some e) w')
               else retry_loop prnt body retries rest (Some e) w'))"

definition synthesize ::
  "('t::zero, 'c) externals \<Rightarrow> pystr \<Rightarrow> path \<Rightarrow> path \<Rightarrow> path \<Rightarrow> int \<Rightarrow>
   ('t, 'c) voiceover_result io" where
  "synthesize ext text output_path cached_audio cached_timing retries =
     retry_loop (print ext)
       (attempt_body ext text output_path cached_audio cached_timing retries)
       retries [0..<nat retries] None"

text \<open>The two cache files of a key, in the directory of the output file.\<close>

definition cached_audio_path :: "path \<Rightarrow> pystr \<Rightarrow> path" where
  "cached_audio_path output_path cache_key = parent output_path @ [cache_key @ str ''.mp3'']"

definition cached_timing_path :: "path \<Rightarrow> pystr \<Rightarrow> path" where
  "cached_timing_path output_path cache_key =
     parent output_path @ [cache_key @ str ''.timing.json'']"

definition generate_voiceover ::
  "('t::zero, 'c) externals \<Rightarrow> pystr \<Rightarrow> path \<Rightarrow> pystr \<Rightarrow> int \<Rightarrow>
   ('t, 'c) voiceover_result io" where
  "generate_voiceover ext text output_path voice_id retries =
     bind_io (mkdir_parents (parent output_path)) (\<lambda>_.
     if \<not> truthy (get_api_key (getenv ext)) then raise_io ValueError
     else
       bind_io (lift_io (get_cache_key text voice_id)) (\<lambda>cache_key.
       let cached_audio = cached_audio_path output_path cache_key;
           cached_timing = cached_timing_path output_path cache_key
       in
       bind_io (check_cache ext text cached_audio cached_timing) (\<lambda>cached.
       case cached of
         Some r \<Rightarrow> return_io r
       | None \<Rightarrow> synthesize ext text output_path cached_audio cached_timing retries)))"

text \<open>The invariant of the list \<open>words\<close>: every entry has text that \<open>strip()\<close> leaves non-empty.\<close>

definition words_ok :: "'t word_timing list \<Rightarrow> bool" where
  "words_ok ws \<longleftrightarrow> (\<forall>w\<in>set ws. strip (wt_text w) \<noteq> [])"

text \<open>The character list of the example \<open>"hi there"\<close>, one string per character.\<close>

definition hi_there :: "pystr list" where
  "hi_there = [str ''h'', str ''i'', str '' '', str ''t'', str ''h'', str ''e'', str ''r'', str ''e'']"


section \<open>Classes of failure and example inputs\<close>

text \<open>
  The classes of failure of one attempt that the claims speak of. A transport error: the
  request itself raises, or the status is not a success. A malformed success: the request
  succeeds, but the body is not JSON, has no \<open>audio_base64\<close>, or its audio does not decode.
  Either way the attempt raises after its request and before it writes anything.
\<close>

definition transport_error :: "'t response \<Rightarrow> exn option" where
  "transport_error r = (case r of Post_raises e \<Rightarrow> Some e | Status_raises e \<Rightarrow> Some e | _ \<Rightarrow> None)"

definition malformed_success :: "('t, 'c) externals \<Rightarrow> 't response \<Rightarrow> exn option" where
  "malformed_success ext r =
     (case r of
        Json_raises e \<Rightarrow> Some e
      | Json_body result \<Rightarrow>
          (case audio_base64 result of
             None \<Rightarrow> Some KeyError
           | Some encoded \<Rightarrow> (case b64decode ext encoded of Inl e \<Rightarrow> Some e | Inr _ \<Rightarrow> None))
      | _ \<Rightarrow> None)"

definition early_error :: "('t, 'c) externals \<Rightarrow> 't response \<Rightarrow> exn option" where
  "early_error ext r =
     (case transport_error r of Some e \<Rightarrow> Some e | None \<Rightarrow> malformed_success ext r)"

text \<open>
  A Unicode scalar value: a code point that is not a surrogate. A Python \<open>str\<close> may hold
  surrogate code points, which \<open>json.dumps\<close> escapes one by one.
\<close>

definition scalar_value :: "nat \<Rightarrow> bool" where
  "scalar_value c \<longleftrightarrow> c < 55296 \<or> (57343 < c \<and> c < 1114112)"

text \<open>
  Example inputs: a call with text \<open>"hi there"\<close> and the default voice, writing to
  \<open>outputs/section_1.mp3\<close>, with an API key set, in an empty file system; a service that
  answers with audio and the alignment of \<open>"hi there"\<close>; a standard output that prints
  every message; and stand-ins for \<open>json.loads\<close> (an empty object, an empty list, anything
  else is not JSON), \<open>json.dumps\<close> and \<open>base64.b64decode\<close>. The float product is given for
  the two lengths that occur in the examples: \<open>8 * 0.0003\<close> is the double
  \<open>5534023222112865 / 2 ^ 61\<close> (Python shows it as \<open>0.0024\<close>), and \<open>0 * 0.0003\<close> is \<open>0.0\<close>.
\<close>

definition demo_text :: pystr where
  "demo_text = str ''hi there''"

definition demo_voice :: pystr where
  "demo_voice = str ''K80wneyktrw2rE11kA2W''"

definition demo_output :: path where
  "demo_output = [str ''outputs'', str ''section_1.mp3'']"

definition demo_env :: "pystr \<Rightarrow> pystr option" where
  "demo_env = Map.empty(str ''ELEVENLABS_API_KEY'' \<mapsto> str ''secret'')"

definition demo_alignment :: "int alignment" where
  "demo_alignment =
     \<lparr>al_characters = Some hi_there,
      al_character_start_times_seconds = Some [0, 1, 2, 3, 4, 5, 6, 7],
      al_character_end_times_seconds = Some [1, 2, 3, 4, 5, 6, 7, 8]\<rparr>"

definition good_response :: "int response" where
  "good_response = Json_body \<lparr>audio_base64 = Some (str ''QUJD''), alignment = Some demo_alignment\<rparr>"

definition demo_world :: world where
  "demo_world = \<lparr>fs = Map.empty, posts = 0\<rparr>"

definition demo_loads :: "pystr \<Rightarrow> exn + int json" where
  "demo_loads content =
     (if content = str ''{}'' then
        Inr (Json_object \<lparr>td_text = None, td_word_timings = None,
                          td_character_alignment = None\<rparr>)
      else if content = str ''[]'' then Inr Json_other
      else Inl JSONDecodeError)"

definition demo_times_rate :: "nat \<Rightarrow> real" where
  "demo_times_rate n = (if n = 8 then 5534023222112865 / 2305843009213693952 else 0)"

definition good_service :: "(int, real) externals" where
  "good_service =
     \<lparr>getenv = demo_env,
      json_loads = demo_loads,
      json_dumps = (\<lambda>timing_data. str ''{}''),
      b64decode = (\<lambda>encoded. Inr (str ''ABC'')),
      times_rate = demo_times_rate,
      post = (\<lambda>n. good_response),
      print = (\<lambda>m. None)\<rparr>"

text \<open>
  The cache key of the example call, the directories that the call creates, and services
  that fail in the ways the claims speak of.
\<close>

definition demo_key :: pystr where
  "demo_key = hexdigest (sha256 (dumps_cache_data demo_text demo_voice))"

definition demo_dirs :: filesystem where
  "demo_dirs = Map.empty([] \<mapsto> Dir, [str ''outputs''] \<mapsto> Dir)"

definition failing_transport :: "(int, real) externals" where
  "failing_transport = good_service\<lparr>post := (\<lambda>n. Post_raises (RequestException n))\<rparr>"

definition no_audio_response :: "int response" where
  "no_audio_response = Json_body \<lparr>audio_base64 = None, alignment = Some demo_alignment\<rparr>"

definition malformed_service :: "(int, real) externals" where
  "malformed_service = good_service\<lparr>post := (\<lambda>n. no_audio_response)\<rparr>"

definition flaky_service :: "(int, real) externals" where
  "flaky_service =
     good_service\<lparr>post := (\<lambda>n. if n = 0 then no_audio_response else good_response)\<rparr>"

text \<open>
  A standard output that is closed once the first line has been written: the message
  that an attempt failed, and every later message, raises \<open>BrokenPipeError\<close>. And one that
  raises on the message that the cache could not be read.
\<close>

definition pipe_closed_after_first_line :: "real message \<Rightarrow> exn option" where
  "pipe_closed_after_first_line m =
     (case m of Generating n retries t \<Rightarrow> (if n = 1 then None else Some BrokenPipeError)
      | Using_cached t \<Rightarrow> None
      | _ \<Rightarrow> Some BrokenPipeError)"

definition pipe_closed_at_cache_error :: "real message \<Rightarrow> exn option" where
  "pipe_closed_at_cache_error m =
     (case m of Cache_read_error e \<Rightarrow> Some BrokenPipeError | _ \<Rightarrow> None)"

text \<open>
  A file system that holds both cache files of the example call, the timing file with
  the given text; and a timing text that was cut off.
\<close>

definition cache_with :: "pystr \<Rightarrow> world" where
  "cache_with timing_text =
     \<lparr>fs = Map.empty(cached_audio_path demo_output demo_key \<mapsto> File (str ''ABC''),
                      cached_timing_path demo_output demo_key \<mapsto> File timing_text),
      posts = 0\<rparr>"

definition truncated_json :: pystr where
  \<open>truncated_json = str ''{"text": "hi''\<close>

text \<open>
  The service's answer for an empty text: no audio and an empty alignment.
\<close>

definition silent_response :: "int response" where
  "silent_response =
     Json_body \<lparr>audio_base64 = Some [],
                alignment = Some \<lparr>al_characters = Some [],
                                  al_character_start_times_seconds = Some [],
                                  al_character_end_times_seconds = Some []\<rparr>\<rparr>"

definition silent_service :: "(int, real) externals" where
  "silent_service = good_service\<lparr>b64decode := (\<lambda>encoded. Inr []), post := (\<lambda>n. silent_response)\<rparr>"

section \<open>Properties of the timing reconstruction\<close>

subsection \<open>Auxiliary facts\<close>

lemma strip_nonempty_iff: "strip s \<noteq> [] \<longleftrightarrow> (\<exists>c\<in>set s. \<not> isspace c)"
proof -
  have "(\<exists>c\<in>set (dropWhile isspace s). \<not> isspace c) \<longleftrightarrow> (\<exists>c\<in>set s. \<not> isspace c)"
  proof
    assume "\<exists>c\<in>set (dropWhile isspace s). \<not> isspace c"
    then show "\<exists>c\<in>set s. \<not> isspace c" by (blast dest: set_dropWhileD)
  next
    assume "\<exists>c\<in>set s. \<not> isspace c"
    then have "dropWhile isspace s \<noteq> []" by (simp add: dropWhile_eq_Nil_conv)
    then have "\<not> isspace (hd (dropWhile isspace s))" by (rule hd_dropWhile)
    moreover from \<open>dropWhile isspace s \<noteq> []\<close> have "hd (dropWhile isspace s) \<in> set (dropWhile isspace s)"
      by simp
    ultimately show "\<exists>c\<in>set (dropWhile isspace s). \<not> isspace c" by blast
  qed
  then show ?thesis by (simp add: strip_def dropWhile_eq_Nil_conv)
qed

lemma getitem_in_range: "i < length xs \<Longrightarrow> getitem xs (int i) = Inr (xs ! i)"
  by (simp add: getitem_def)

lemma getitem_last: "xs \<noteq> [] \<Longrightarrow> getitem xs (- 1) = Inr (last xs)"
  by (cases xs rule: rev_cases) (auto simp: getitem_def Let_def nth_append)

lemma skip_whitespace_returns: "\<exists>n. skip_whitespace characters k = Inr n"
proof (induction characters k rule: skip_whitespace.induct)
  case (1 characters k)
  show ?case
  proof (cases "k < length characters")
    case True
    then have g: "getitem characters (int k) = Inr (characters ! k)"
      by (rule getitem_in_range)
    show ?thesis
    proof (cases "is_separator (characters ! k)")
      case True
      with 1 [OF \<open>k < length characters\<close> g] \<open>k < length characters\<close> g show ?thesis
        by (subst skip_whitespace.simps) simp
    next
      case False
      with \<open>k < length characters\<close> g show ?thesis
        by (subst skip_whitespace.simps) simp
    qed
  next
    case False
    then show ?thesis by (subst skip_whitespace.simps) simp
  qed
qed

lemma end_current_word_words_ok:
  "end_current_word start_times end_times i (words, cw) = Inr (words', cw') \<Longrightarrow>
   words_ok words \<Longrightarrow> words_ok words'"
  by (auto simp: end_current_word_def words_ok_def Let_def split: if_splits sum.splits)

lemma start_new_word_words:
  "start_new_word characters start_times i (words, cw) = Inr (words', cw') \<Longrightarrow> words' = words"
  by (auto simp: start_new_word_def split: if_splits sum.splits)

lemma loop_body_words_ok:
  assumes "loop_body characters start_times end_times i char (words, cw) = Inr (words', cw')"
    and "words_ok words"
  shows "words_ok words'"
proof (cases "is_separator char")
  case False
  with assms show ?thesis by (simp add: loop_body_def)
next
  case True
  with assms(1) obtain ws1 cw1 where
    e: "end_current_word start_times end_times i (words, cw) = Inr (ws1, cw1)" and
    s: "start_new_word characters start_times i (ws1, cw1) = Inr (words', cw')"
    by (auto simp: loop_body_def split: sum.splits)
  from end_current_word_words_ok [OF e assms(2)] start_new_word_words [OF s]
  show ?thesis by simp
qed

lemma for_loop_words_ok:
  "for_loop characters start_times end_times ps (words, cw) = Inr (words', cw') \<Longrightarrow>
   words_ok words \<Longrightarrow> words_ok words'"
proof (induction ps arbitrary: words cw)
  case Nil
  then show ?case by simp
next
  case (Cons p ps)
  obtain i char where p: "p = (i, char)" by (cases p)
  from Cons.prems(1) p obtain ws1 cw1 where
    b: "loop_body characters start_times end_times i char (words, cw) = Inr (ws1, cw1)" and
    r: "for_loop characters start_times end_times ps (ws1, cw1) = Inr (words', cw')"
    by (auto split: sum.splits)
  from loop_body_words_ok [OF b Cons.prems(2)] have "words_ok ws1" .
  with Cons.IH [OF r] show ?case .
qed

lemma end_current_word_returns:
  assumes "i < length characters" "length start_times = length characters"
    "length end_times = length characters"
  shows "\<exists>st'. end_current_word start_times end_times i st = Inr st'"
proof -
  have e: "0 < i \<Longrightarrow> getitem end_times (int i - 1) = Inr (end_times ! (i - 1))"
    using assms getitem_in_range [of "i - 1" end_times] by (simp add: of_nat_diff)
  have s: "getitem start_times (int i) = Inr (start_times ! i)"
    using assms by (simp add: getitem_in_range)
  obtain words cw where st: "st = (words, cw)" by (cases st)
  show ?thesis
  proof (cases "0 < i")
    case True
    with e st show ?thesis by (simp add: end_current_word_def Let_def)
  next
    case False
    with s st show ?thesis by (simp add: end_current_word_def Let_def)
  qed
qed

lemma start_new_word_returns:
  "\<exists>st'. start_new_word characters start_times i st = Inr st'"
proof -
  obtain n where n: "skip_whitespace characters (i + 1) = Inr n"
    using skip_whitespace_returns by blast
  then show ?thesis
    by (cases st) (simp add: start_new_word_def getitem_in_range)
qed

lemma loop_body_returns:
  assumes "i < length characters" "length start_times = length characters"
    "length end_times = length characters"
  shows "\<exists>st'. loop_body characters start_times end_times i char st = Inr st'"
proof (cases "is_separator char")
  case True
  from end_current_word_returns [OF assms] obtain st1 where
    "end_current_word start_times end_times i st = Inr st1" by blast
  moreover from start_new_word_returns obtain st2 where
    "start_new_word characters start_times i st1 = Inr st2" by blast
  ultimately show ?thesis using True by (simp add: loop_body_def)
next
  case False
  then show ?thesis by (cases st) (simp add: loop_body_def)
qed

lemma for_loop_returns:
  assumes "\<forall>p\<in>set ps. fst p < length characters" "length start_times = length characters"
    "length end_times = length characters"
  shows "\<exists>st'. for_loop characters start_times end_times ps st = Inr st'"
  using assms(1)
proof (induction ps arbitrary: st)
  case Nil
  then show ?case by simp
next
  case (Cons p ps)
  obtain i char where p: "p = (i, char)" by (cases p)
  with Cons.prems have "i < length characters" by simp
  from loop_body_returns [OF this assms(2,3)] obtain st1 where
    "loop_body characters start_times end_times i char st = Inr st1" by blast
  moreover from Cons.IH [of st1] Cons.prems obtain st2 where
    "for_loop characters start_times end_times ps st1 = Inr st2" by auto
  ultimately show ?case using p by simp
qed


lemmas eval_extract =
  extract_word_timings_def loop_body_def end_current_word_def start_new_word_def
  skip_whitespace.simps getitem_def is_separator_def strip_def isspace_def str_def Let_def

subsection \<open>The claims\<close>

text \<open>
  C1 (as the code behaves). For the characters of \<open>"hi there"\<close>, start times \<open>0..7\<close> and
  end times \<open>1..8\<close>, the result is exactly two word timings: \<open>"hi"\<close> with start 0, end 2
  and character indices 0 to 1, and \<open>"there"\<close> with start 3 (the start time of its first
  character, at index 3), end 8 and character indices 3 to 7.
\<close>

theorem hi_there_word_timings:
  "extract_word_timings hi_there [0, 1, 2, 3, 4, 5, 6, 7 :: int] [1, 2, 3, 4, 5, 6, 7, 8] =
     Inr [\<lparr>wt_text = str ''hi'', wt_start = 0, wt_end = 2,
            char_start_index = 0, char_end_index = 1\<rparr>,
          \<lparr>wt_text = str ''there'', wt_start = 3, wt_end = 8,
            char_start_index = 3, char_end_index = 7\<rparr>]"
  by (simp add: hi_there_def eval_extract)

text \<open>
  C1 as stated fails: the start times of the two words returned for that call are not
  0 and 4.
\<close>

theorem hi_there_start_not_4:
  "map wt_start (projr (extract_word_timings hi_there
       [0, 1, 2, 3, 4, 5, 6, 7 :: int] [1, 2, 3, 4, 5, 6, 7, 8])) \<noteq> [0, 4]"
  by (simp add: hi_there_def eval_extract)

text \<open>
  C4. No word timing that \<open>_extract_word_timings\<close> returns has empty or all-white-space
  text, whatever the input: its text is not empty, \<open>strip()\<close> leaves it non-empty, and it
  has a character that is not white space.
\<close>

theorem word_text_never_blank:
  assumes "extract_word_timings characters start_times end_times = Inr ws" and "w \<in> set ws"
  shows "wt_text w \<noteq> [] \<and> strip (wt_text w) \<noteq> [] \<and> (\<exists>c\<in>set (wt_text w). \<not> isspace c)"
proof -
  have "words_ok ws"
  proof (cases "characters = [] \<or> start_times = [] \<or> end_times = []")
    case True
    with assms(1) show ?thesis by (simp add: extract_word_timings_def words_ok_def)
  next
    case False
    with assms(1) obtain t0 words cw where
      f: "for_loop characters start_times end_times (enumerate 0 characters)
            ([], \<lparr>wt_text = [], wt_start = t0, wt_end = 0,
                  char_start_index = 0, char_end_index = 0\<rparr>) = Inr (words, cw)" and
      ws: "ws = words \<or> (strip (wt_text cw) \<noteq> [] \<and> (\<exists>t. ws = words @ [cw\<lparr>wt_end := t\<rparr>]))"
      by (auto simp: extract_word_timings_def split: sum.splits if_splits prod.splits)
    from for_loop_words_ok [OF f] have "words_ok words" by (simp add: words_ok_def)
    with ws show ?thesis by (auto simp: words_ok_def)
  qed
  with assms(2) have "strip (wt_text w) \<noteq> []" by (simp add: words_ok_def)
  then show ?thesis by (auto simp: strip_nonempty_iff)
qed

text \<open>
  An input with leading, repeated and trailing white space, \<open>" a  b "\<close>: the entries
  returned all have text.
\<close>

theorem word_text_never_blank_witness:
  "extract_word_timings [str '' '', str ''a'', str '' '', str '' '', str ''b'', str '' '']
       [0, 1, 2, 3, 4, 5 :: int] [1, 2, 3, 4, 5, 6] =
     Inr [\<lparr>wt_text = str ''a'', wt_start = 1, wt_end = 2,
            char_start_index = 1, char_end_index = 1\<rparr>,
          \<lparr>wt_text = str ''b'', wt_start = 4, wt_end = 5,
            char_start_index = 4, char_end_index = 4\<rparr>,
          \<lparr>wt_text = str ''b'', wt_start = 4, wt_end = 6,
            char_start_index = 4, char_end_index = 4\<rparr>] \<and>
   strip (str ''b'') \<noteq> [] \<and> (\<exists>c\<in>set (str ''b''). \<not> isspace c)"
proof -
  let ?b = "\<lparr>wt_text = str ''b'', wt_start = 4 :: int, wt_end = 6,
            char_start_index = 4, char_end_index = 4\<rparr>"
  let ?ws = "[\<lparr>wt_text = str ''a'', wt_start = 1, wt_end = 2,
            char_start_index = 1, char_end_index = 1\<rparr>,
          \<lparr>wt_text = str ''b'', wt_start = 4, wt_end = 5,
            char_start_index = 4, char_end_index = 4\<rparr>, ?b]"
  have r: "extract_word_timings [str '' '', str ''a'', str '' '', str '' '', str ''b'', str '' '']
       [0, 1, 2, 3, 4, 5 :: int] [1, 2, 3, 4, 5, 6] = Inr ?ws"
    by (simp add: eval_extract)
  have m: "?b \<in> set ?ws" by simp
  from word_text_never_blank [OF r m] r show ?thesis by simp
qed

text \<open>
  C7. If any one of the three input lists is empty, the result is the empty sequence.
\<close>

theorem empty_input_gives_no_words:
  fixes characters :: "pystr list" and start_times end_times :: "'t::zero list"
  shows "extract_word_timings [] start_times end_times = Inr [] \<and>
         extract_word_timings characters [] end_times = Inr [] \<and>
         extract_word_timings characters start_times [] = Inr []"
  by (simp add: extract_word_timings_def)

text \<open>
  C9. When the three lists have equal length, no list access of \<open>_extract_word_timings\<close>
  is out of range: the function raises nothing and returns a list of word timings.
\<close>

theorem equal_lengths_no_index_error:
  assumes "length start_times = length characters" "length end_times = length characters"
  shows "\<exists>ws. extract_word_timings characters start_times end_times = Inr ws"
proof (cases "characters = []")
  case True
  then show ?thesis by (simp add: extract_word_timings_def)
next
  case False
  with assms have ne: "start_times \<noteq> []" "end_times \<noteq> []" by auto
  have "\<forall>p\<in>set (enumerate 0 characters). fst p < length characters"
    by (auto simp: in_set_enumerate_eq)
  from for_loop_returns [OF this assms] obtain st where
    "for_loop characters start_times end_times (enumerate 0 characters)
       ([], \<lparr>wt_text = [], wt_start = start_times ! 0, wt_end = 0,
             char_start_index = 0, char_end_index = 0\<rparr>) = Inr st" by blast
  with ne False getitem_in_range [of 0 start_times] show ?thesis
    by (cases st) (auto simp: extract_word_timings_def getitem_last)
qed


theorem equal_lengths_no_index_error_witness:
  "length [0, 1, 2, 3, 4, 5, 6, 7 :: int] = length hi_there \<and>
   length [1, 2, 3, 4, 5, 6, 7, 8 :: int] = length hi_there \<and>
   (\<exists>ws. extract_word_timings hi_there [0, 1, 2, 3, 4, 5, 6, 7 :: int] [1, 2, 3, 4, 5, 6, 7, 8] = Inr ws)"
proof -
  have a: "length [0, 1, 2, 3, 4, 5, 6, 7 :: int] = length hi_there" by (simp add: hi_there_def)
  have b: "length [1, 2, 3, 4, 5, 6, 7, 8 :: int] = length hi_there" by (simp add: hi_there_def)
  from equal_lengths_no_index_error [OF a b] a b show ?thesis by blast
qed

section \<open>Properties of the cache key\<close>

subsection \<open>Auxiliary facts\<close>

text \<open>
  The serialization is ASCII, so its UTF-8 encoding never raises and is the text itself;
  the digest has 64 characters.
\<close>

lemma hex4_ascii: "x \<in> set (hex4 n) \<Longrightarrow> x < 128"
  by (auto simp: hex4_def hex_digit_def)

lemma escape_char_ascii: "x \<in> set (escape_char c) \<Longrightarrow> x < 128"
  by (auto simp: escape_char_def dest: hex4_ascii split: if_splits)

lemma json_string_ascii: "x \<in> set (json_string s) \<Longrightarrow> x < 128"
  by (auto simp: json_string_def dest: escape_char_ascii)

lemma dumps_cache_data_ascii: "x \<in> set (dumps_cache_data text voice_id) \<Longrightarrow> x < 128"
  by (auto simp: dumps_cache_data_def str_def dest: json_string_ascii)

lemma encode_utf8_ascii: "\<forall>x\<in>set s. x < 128 \<Longrightarrow> encode_utf8 s = Inr s"
  by (induction s) (simp_all add: utf8_char_def)

lemma get_cache_key_eq:
  "get_cache_key text voice_id = Inr (hexdigest (sha256 (dumps_cache_data text voice_id)))"
proof -
  have "encode_utf8 (dumps_cache_data text voice_id) = Inr (dumps_cache_data text voice_id)"
    by (rule encode_utf8_ascii) (blast dest: dumps_cache_data_ascii)
  then show ?thesis by (simp add: get_cache_key_def)
qed

lemma length_round256: "length (round256 kw s) = length s"
  by (cases "(kw, s)" rule: round256.cases) (simp_all add: Let_def)

lemma length_fold_round256: "length (fold round256 kws s) = length s"
  by (induction kws arbitrary: s) (simp_all add: length_round256)

lemma length_compress: "length (compress hs block) = length hs"
  by (simp add: compress_def length_fold_round256)

lemma length_fold_compress:
  "length (fold (\<lambda>block hs. compress hs block) blocks hs) = length hs"
  by (induction blocks arbitrary: hs) (simp_all add: length_compress)

lemma length_sha256: "length (sha256 m) = 8"
  by (simp add: sha256_def length_fold_compress H256_def)

lemma length_hexdigest: "length (hexdigest hs) = 8 * length hs"
  by (induction hs) (simp_all add: hexdigest_def hex8_def hex4_def)

lemma length_digest [simp]: "length (hexdigest (sha256 m)) = 64"
  by (simp add: length_hexdigest length_sha256)

lemma length_cache_key: "get_cache_key text voice_id = Inr cache_key \<Longrightarrow> length cache_key = 64"
  by (auto simp: get_cache_key_eq)

lemma digest_append_neq [simp]:
  "length t < 64 \<Longrightarrow> hexdigest (sha256 m) @ s \<noteq> t"
  "length t < 64 \<Longrightarrow> t \<noteq> hexdigest (sha256 m) @ s"
  by (auto dest: arg_cong [where f = length])

text \<open>
  The escaping of \<open>json.dumps\<close> can be read back on strings of scalar values: no two of
  them have the same serialization.
\<close>

lemma hex_digit_inj: "a < 16 \<Longrightarrow> b < 16 \<Longrightarrow> hex_digit a = hex_digit b \<Longrightarrow> a = b"
  by (auto simp: hex_digit_def split: if_splits)

lemma div_mod_16: "(x::nat) div 16 = y div 16 \<Longrightarrow> x mod 16 = y mod 16 \<Longrightarrow> x = y"
  by (metis div_mult_mod_eq)

lemma hex4_inj:
  assumes "a < 65536" "b < 65536" "hex4 a = hex4 b"
  shows "a = b"
proof -
  from assms(3) have
    "hex_digit (a div 4096 mod 16) = hex_digit (b div 4096 mod 16)"
    "hex_digit (a div 256 mod 16) = hex_digit (b div 256 mod 16)"
    "hex_digit (a div 16 mod 16) = hex_digit (b div 16 mod 16)"
    "hex_digit (a mod 16) = hex_digit (b mod 16)"
    by (simp_all add: hex4_def)
  then have
    "a div 4096 mod 16 = b div 4096 mod 16"
    "a div 256 mod 16 = b div 256 mod 16"
    "a div 16 mod 16 = b div 16 mod 16"
    "a mod 16 = b mod 16"
    by (auto intro: hex_digit_inj)
  then have d: "a div 4096 mod 16 = b div 4096 mod 16"
    "a div 256 mod 16 = b div 256 mod 16"
    "a div 16 mod 16 = b div 16 mod 16"
    "a mod 16 = b mod 16" .
  from assms(1,2) have "a div 4096 < 16" "b div 4096 < 16" by simp_all
  with d(1) have "a div 4096 = b div 4096" by simp
  then have "a div 256 div 16 = b div 256 div 16" by (simp add: div_mult2_eq [symmetric])
  from this d(2) have "a div 256 = b div 256" by (rule div_mod_16)
  then have "a div 16 div 16 = b div 16 div 16" by (simp add: div_mult2_eq [symmetric])
  from this d(3) have "a div 16 = b div 16" by (rule div_mod_16)
  from this d(4) show ?thesis by (rule div_mod_16)
qed

lemma hex4_eq_iff [simp]: "a < 65536 \<Longrightarrow> b < 65536 \<Longrightarrow> hex4 a = hex4 b \<longleftrightarrow> a = b"
  by (auto dest: hex4_inj)

lemma length_hex4 [simp]: "length (hex4 n) = 4"
  by (simp add: hex4_def)

lemma hex4_append_eq [simp]: "hex4 a @ r1 = hex4 b @ r2 \<longleftrightarrow> hex4 a = hex4 b \<and> r1 = r2"
  by simp

lemma escape_char_first: "\<exists>x xs. escape_char c = x # xs \<and> x \<noteq> 34"
  by (simp add: escape_char_def)

lemma escape_char_inj:
  assumes "scalar_value c" "scalar_value d" "escape_char c @ r1 = escape_char d @ r2"
  shows "c = d \<and> r1 = r2"
proof -
  have hi: "55296 + n div 1024 mod 1024 < 65536" for n :: nat
    by (rule less_trans [of _ "55296 + 1024"]) simp_all
  have lo: "56320 + n mod 1024 < 65536" for n :: nat
    by (rule less_trans [of _ "56320 + 1024"]) simp_all
  have sur: "scalar_value x \<Longrightarrow> x \<noteq> 55296 + n div 1024 mod 1024" for x n
  proof
    assume s: "scalar_value x" and x: "x = 55296 + n div 1024 mod 1024"
    have "n div 1024 mod 1024 < 1024" by simp
    with x have "55296 \<le> x" "x < 56320" by simp_all
    with s show False by (simp add: scalar_value_def)
  qed
  have astral: "x = y" if "65536 \<le> x" "65536 \<le> y" "x < 1114112" "y < 1114112"
    "(x - 65536) div 1024 mod 1024 = (y - 65536) div 1024 mod 1024"
    "(x - 65536) mod 1024 = (y - 65536) mod 1024" for x y :: nat
  proof -
    from that(3,4) have "(x - 65536) div 1024 < 1024" "(y - 65536) div 1024 < 1024"
      by simp_all
    with that(5) have "(x - 65536) div 1024 = (y - 65536) div 1024" by simp
    with that(6) have "x - 65536 = y - 65536" by (metis div_mult_mod_eq)
    with that(1,2) show ?thesis by simp
  qed
  show ?thesis
    using assms(3)
    apply (simp add: escape_char_def hi lo split: if_splits)
    subgoal using sur [OF assms(2)] by blast
    subgoal using sur [OF assms(1)] by blast
    subgoal using astral [of c d] assms(1,2) by (simp add: scalar_value_def)
    done
qed

lemma escaped_inj:
  assumes "list_all scalar_value s" "list_all scalar_value s'"
    and "concat (map escape_char s) @ 34 # r = concat (map escape_char s') @ 34 # r'"
  shows "s = s' \<and> r = r'"
  using assms
proof (induction s arbitrary: s')
  case Nil
  show ?case
  proof (cases s')
    case Nil
    with Nil.prems show ?thesis by simp
  next
    case (Cons d t)
    obtain x xs where "escape_char d = x # xs" "x \<noteq> 34"
      using escape_char_first by blast
    with Cons Nil.prems(3) show ?thesis by simp
  qed
next
  case (Cons c t)
  show ?case
  proof (cases s')
    case Nil
    obtain x xs where "escape_char c = x # xs" "x \<noteq> 34"
      using escape_char_first by blast
    with Nil Cons.prems(3) show ?thesis by simp
  next
    case (Cons d t')
    with Cons.prems have
      "escape_char c @ (concat (map escape_char t) @ 34 # r) =
       escape_char d @ (concat (map escape_char t') @ 34 # r')"
      "scalar_value c" "scalar_value d" "list_all scalar_value t" "list_all scalar_value t'"
      by simp_all
    with escape_char_inj [OF this(2,3,1)] Cons.IH [of t'] Cons show ?thesis by simp
  qed
qed

lemma dumps_cache_data_inj:
  assumes "list_all scalar_value text" "list_all scalar_value voice_id"
    "list_all scalar_value text'" "list_all scalar_value voice_id'"
    and "dumps_cache_data text voice_id = dumps_cache_data text' voice_id'"
  shows "text = text' \<and> voice_id = voice_id'"
proof -
  let ?sep = \<open>str '', "voice_id": ''\<close>
  from assms(5) have
    "concat (map escape_char text) @
       34 # (?sep @ 34 # concat (map escape_char voice_id) @ 34 # str ''}'') =
     concat (map escape_char text') @
       34 # (?sep @ 34 # concat (map escape_char voice_id') @ 34 # str ''}'')"
    by (simp add: dumps_cache_data_def json_string_def)
  from escaped_inj [OF assms(1,3) this] have
    t: "text = text'" and
    "concat (map escape_char voice_id) @ 34 # str ''}'' =
     concat (map escape_char voice_id') @ 34 # str ''}''"
    by simp_all
  from escaped_inj [OF assms(2,4) this(2)] t show ?thesis by simp
qed

subsection \<open>The claims\<close>

text \<open>
  C5 (as the code behaves). The cache key is a function of \<open>(text, voice_id)\<close> alone: it is
  the SHA-256 hex digest of the canonical JSON serialization of the pair. For strings of
  scalar values, any change to \<open>text\<close> or to \<open>voice_id\<close> changes the serialization that is
  hashed.
\<close>

theorem cache_key_is_digest_of_serialization:
  "get_cache_key text voice_id = Inr (hexdigest (sha256 (dumps_cache_data text voice_id))) \<and>
   (list_all scalar_value text \<and> list_all scalar_value voice_id \<and>
    list_all scalar_value text' \<and> list_all scalar_value voice_id' \<and>
    (text \<noteq> text' \<or> voice_id \<noteq> voice_id') \<longrightarrow>
    dumps_cache_data text voice_id \<noteq> dumps_cache_data text' voice_id')"
  using dumps_cache_data_inj [of "text" voice_id text' voice_id']
  by (auto simp: get_cache_key_eq)

text \<open>
  Two texts that differ in one character, with the default voice.
\<close>

theorem cache_key_is_digest_of_serialization_witness:
  "list_all scalar_value (str ''hi there'') \<and> list_all scalar_value (str ''hi there!'') \<and>
   list_all scalar_value demo_voice \<and> str ''hi there'' \<noteq> str ''hi there!'' \<and>
   dumps_cache_data (str ''hi there'') demo_voice \<noteq>
     dumps_cache_data (str ''hi there!'') demo_voice \<and>
   get_cache_key (str ''hi there'') demo_voice =
     Inr (hexdigest (sha256 (dumps_cache_data (str ''hi there'') demo_voice)))"
proof -
  have s: "list_all scalar_value (str ''hi there'')" "list_all scalar_value (str ''hi there!'')"
    "list_all scalar_value demo_voice"
    by (simp_all add: str_def demo_voice_def scalar_value_def)
  have n: "str ''hi there'' \<noteq> str ''hi there!''"
    by (simp add: str_def)
  from cache_key_is_digest_of_serialization
    [of "str ''hi there''" demo_voice "str ''hi there!''" demo_voice] s n
  show ?thesis by simp
qed

text \<open>
  C5 as stated fails: the text made of the two surrogate code points U+D83D U+DE00 and
  the text made of the one character U+1F600 are different texts with the same cache key,
  since \<open>json.dumps\<close> writes both as \<open>\ud83d\ude00\<close>.
\<close>

theorem surrogate_pair_collision:
  "[55357, 56832] \<noteq> [128512 :: nat] \<and>
   get_cache_key [55357, 56832] demo_voice = get_cache_key [128512] demo_voice"
  by (simp add: get_cache_key_eq dumps_cache_data_def json_string_def escape_char_def
      hex4_def hex_digit_def)

section \<open>Properties of voiceover generation\<close>

subsection \<open>Auxiliary facts\<close>

lemma bind_io_Inl: "m w = (Inl e, w') \<Longrightarrow> bind_io m f w = (Inl e, w')"
  by (simp add: bind_io_def)

lemma bind_io_lift_Inl [simp]: "bind_io (lift_io (Inl e)) f w = (Inl e, w)"
  by (simp add: bind_io_def lift_io_def)

lemma bind_io_lift_Inr [simp]: "bind_io (lift_io (Inr x)) f w = f x w"
  by (simp add: bind_io_def lift_io_def)

lemma bind_io_Inr_elim:
  assumes "bind_io m f w = (Inr y, w')"
  obtains x w1 where "m w = (Inr x, w1)" "f x w1 = (Inr y, w')"
  using assms by (auto simp: bind_io_def split: prod.splits sum.splits)

text \<open>A \<open>print\<close> raises or not, and leaves the world as it is.\<close>

lemma print_io_None: "print ext m = None \<Longrightarrow> print_io ext m w = (Inr (), w)"
  by (simp add: print_io_def)

lemma print_io_Some: "print ext m = Some e \<Longrightarrow> print_io ext m w = (Inl e, w)"
  by (simp add: print_io_def)

lemma bind_print_io_None [simp]:
  "print ext m = None \<Longrightarrow> bind_io (print_io ext m) f w = f () w"
  by (simp add: bind_io_def print_io_def)

lemma bind_print_io_Some [simp]:
  "print ext m = Some e \<Longrightarrow> bind_io (print_io ext m) f w = (Inl e, w)"
  by (simp add: bind_io_def print_io_def)

lemma print_io_cases:
  obtains (printed) "print_io ext m w = (Inr (), w)" "print ext m = None"
  | (raised) e where "print_io ext m w = (Inl e, w)" "print ext m = Some e"
  by (cases "print ext m") (auto simp: print_io_def)

text \<open>
  An attempt whose first message is printed and whose request fails, or whose response
  has no usable audio, raises after the request and before any write. When every attempt
  does so and the messages of the handler are printed, the loop makes one request per
  attempt and ends with the final exception.
\<close>

lemma attempt_body_early_error:
  assumes "print ext (Generating (attempt + 1) retries (take 50 text)) = None"
    and "early_error ext (post ext (posts w)) = Some e"
  shows "attempt_body ext text output_path cached_audio cached_timing retries attempt w =
           (Inl e, w\<lparr>posts := posts w + 1\<rparr>)"
proof (cases "post ext (posts w)")
  case (Post_raises x)
  with assms(2) have "request_json ext w = (Inl e, w\<lparr>posts := posts w + 1\<rparr>)"
    by (simp add: request_json_def early_error_def transport_error_def)
  with assms(1) show ?thesis by (simp add: attempt_body_def bind_io_Inl)
next
  case (Status_raises x)
  with assms(2) have "request_json ext w = (Inl e, w\<lparr>posts := posts w + 1\<rparr>)"
    by (simp add: request_json_def early_error_def transport_error_def)
  with assms(1) show ?thesis by (simp add: attempt_body_def bind_io_Inl)
next
  case (Json_raises x)
  with assms(2) have "request_json ext w = (Inl e, w\<lparr>posts := posts w + 1\<rparr>)"
    by (simp add: request_json_def early_error_def transport_error_def malformed_success_def)
  with assms(1) show ?thesis by (simp add: attempt_body_def bind_io_Inl)
next
  case (Json_body result)
  then have r: "request_json ext w = (Inr result, w\<lparr>posts := posts w + 1\<rparr>)"
    by (simp add: request_json_def)
  show ?thesis
  proof (cases "audio_base64 result")
    case None
    with assms(2) Json_body have "e = KeyError"
      by (simp add: early_error_def transport_error_def malformed_success_def)
    with None assms(1) show ?thesis
      by (simp add: attempt_body_def bind_io_def r subscript_audio_base64_def lift_io_def
          print_io_def)
  next
    case (Some encoded)
    with assms(2) Json_body have "b64decode ext encoded = Inl e"
      by (simp add: early_error_def transport_error_def malformed_success_def
          split: sum.splits)
    with Some assms(1) show ?thesis
      by (simp add: attempt_body_def bind_io_def r subscript_audio_base64_def lift_io_def
          print_io_def)
  qed
qed

lemma retry_loop_all_fail:
  assumes "n = nat retries"
    and "\<forall>i. a \<le> i \<and> i < n \<longrightarrow>
           print ext (Generating (i + 1) retries (take 50 text)) = None \<and>
           (\<exists>e. early_error ext (post ext (posts w + (i - a))) = Some e \<and>
                print ext (Attempt_failed (i + 1) e) = None)"
    and "print ext Retrying = None"
  shows "retry_loop (print ext)
           (attempt_body ext text output_path cached_audio cached_timing retries)
           retries [a..<n] last_error w =
         (Inl (Failed_after retries
                 (if a < n then early_error ext (post ext (posts w + (n - 1 - a)))
                  else last_error)),
          w\<lparr>posts := posts w + (n - a)\<rparr>)"
  using assms(2)
proof (induction "n - a" arbitrary: a w last_error)
  case 0
  then have "[a..<n] = []" by simp
  with 0 show ?case by simp
next
  case (Suc d)
  then have lt: "a < n" by simp
  then have upt: "[a..<n] = a # [Suc a..<n]" by (rule upt_conv_Cons)
  from Suc.prems lt obtain e where
    g: "print ext (Generating (a + 1) retries (take 50 text)) = None" and
    e: "early_error ext (post ext (posts w)) = Some e" and
    f: "print ext (Attempt_failed (a + 1) e) = None"
    by (metis diff_self_eq_0 add_0_right le_refl)
  let ?w1 = "w\<lparr>posts := posts w + 1\<rparr>"
  have b: "attempt_body ext text output_path cached_audio cached_timing retries a w =
             (Inl e, ?w1)"
    by (rule attempt_body_early_error [OF g e])
  have d: "d = n - Suc a" using Suc.hyps(2) by simp
  have next_hyp: "\<forall>i. Suc a \<le> i \<and> i < n \<longrightarrow>
           print ext (Generating (i + 1) retries (take 50 text)) = None \<and>
           (\<exists>e. early_error ext (post ext (posts ?w1 + (i - Suc a))) = Some e \<and>
                print ext (Attempt_failed (i + 1) e) = None)"
  proof (intro allI impI)
    fix i assume i: "Suc a \<le> i \<and> i < n"
    then have "a \<le> i \<and> i < n" by simp
    with Suc.prems have h:
      "print ext (Generating (i + 1) retries (take 50 text)) = None \<and>
       (\<exists>e. early_error ext (post ext (posts w + (i - a))) = Some e \<and>
            print ext (Attempt_failed (i + 1) e) = None)" by blast
    have "posts ?w1 = posts w + 1" by simp
    with i have eq: "posts ?w1 + (i - Suc a) = posts w + (i - a)" by arith
    show
      "print ext (Generating (i + 1) retries (take 50 text)) = None \<and>
       (\<exists>e. early_error ext (post ext (posts ?w1 + (i - Suc a))) = Some e \<and>
            print ext (Attempt_failed (i + 1) e) = None)"
      unfolding eq by (rule h)
  qed
  from Suc.hyps(1) [OF d next_hyp, of "Some e"]
  have r: "retry_loop (print ext)
             (attempt_body ext text output_path cached_audio cached_timing retries)
             retries [Suc a..<n] (Some e) ?w1 =
           (Inl (Failed_after retries
                   (if Suc a < n then early_error ext (post ext (posts ?w1 + (n - 1 - Suc a)))
                    else Some e)),
            ?w1\<lparr>posts := posts ?w1 + (n - Suc a)\<rparr>)" .
  have "posts w + 1 + (n - Suc a) = posts w + (n - a)" using lt by arith
  then have w: "?w1\<lparr>posts := posts ?w1 + (n - Suc a)\<rparr> = w\<lparr>posts := posts w + (n - a)\<rparr>"
    by simp
  have c: "(if Suc a < n then early_error ext (post ext (posts ?w1 + (n - 1 - Suc a)))
            else Some e) = early_error ext (post ext (posts w + (n - 1 - a)))"
  proof (cases "Suc a < n")
    case True
    have "posts ?w1 = posts w + 1" by simp
    with True have eq: "posts ?w1 + (n - 1 - Suc a) = posts w + (n - 1 - a)" by arith
    from True show ?thesis unfolding eq by simp
  next
    case False
    with lt have "n - 1 - a = 0" by arith
    with False e show ?thesis by simp
  qed
  have step: "retry_loop (print ext)
             (attempt_body ext text output_path cached_audio cached_timing retries)
             retries (a # [Suc a..<n]) last_error w =
           retry_loop (print ext)
             (attempt_body ext text output_path cached_audio cached_timing retries)
             retries [Suc a..<n] (Some e) ?w1"
    using b f assms(3) by simp
  show ?case
    unfolding upt step r w c using lt by simp
qed


text \<open>
  Creating the output directory changes no file, and nothing below that directory; when
  it succeeds the directory is there.
\<close>

lemma make_dirs_frame:
  "make_dirs files d cs = Inr files' \<Longrightarrow>
   files' p = files p \<or> (files' p = Some Dir \<and> files p = None \<and> length p \<le> length d + length cs)"
proof (induction cs arbitrary: files d)
  case Nil
  then show ?case by (cases "files d") (auto split: option.splits node.splits if_splits)
next
  case (Cons c cs)
  show ?case
  proof (cases "\<exists>content. files d = Some (File content)")
    case True
    with Cons.prems show ?thesis by auto
  next
    case False
    then have "make_dirs files d (c # cs) = make_dirs (files(d \<mapsto> Dir)) (d @ [c]) cs"
      by (auto split: option.splits node.splits)
    with Cons.prems have "make_dirs (files(d \<mapsto> Dir)) (d @ [c]) cs = Inr files'" by simp
    from Cons.IH [OF this] have
      "files' p = (files(d \<mapsto> Dir)) p \<or>
       (files' p = Some Dir \<and> (files(d \<mapsto> Dir)) p = None \<and>
        length p \<le> length (d @ [c]) + length cs)" .
    moreover from False have "files d = None \<or> files d = Some Dir"
      by (metis node.exhaust option.exhaust)
    ultimately show ?thesis
      by (auto split: if_splits)
  qed
qed

lemma mkdir_parents_frame:
  assumes "mkdir_parents d w = (r, w1)"
  shows "posts w1 = posts w"
    and "fs w1 p = fs w p \<or> (fs w1 p = Some Dir \<and> fs w p = None \<and> length p \<le> length d)"
  using assms make_dirs_frame [of "fs w" "[]" d _ p]
  by (auto simp: mkdir_parents_def split: sum.splits)

lemma mkdir_parents_file:
  assumes "mkdir_parents d w = (r, w1)"
  shows "fs w1 p = Some (File content) \<longleftrightarrow> fs w p = Some (File content)"
  using mkdir_parents_frame(2) [OF assms, of p] by auto

lemma mkdir_parents_below:
  assumes "mkdir_parents d w = (r, w1)" "length d < length p"
  shows "fs w1 p = fs w p"
  using mkdir_parents_frame(2) [OF assms(1), of p] assms(2) by auto

lemma make_dirs_target:
  "make_dirs files d cs = Inr files' \<Longrightarrow> files' (d @ cs) = Some Dir"
proof (induction cs arbitrary: files d)
  case Nil
  then show ?case by (auto split: option.splits node.splits)
next
  case (Cons c cs)
  then have "make_dirs (files(d \<mapsto> Dir)) (d @ [c]) cs = Inr files'"
    by (auto split: option.splits node.splits)
  from Cons.IH [OF this] show ?case by simp
qed

lemma mkdir_parents_dir:
  assumes "mkdir_parents d w = (Inr u, w1)"
  shows "fs w1 d = Some Dir"
  using assms make_dirs_target [of "fs w" "[]" d]
  by (auto simp: mkdir_parents_def split: sum.splits)

lemma mkdir_parents_fails:
  assumes "mkdir_parents d w = (Inl e, w1)"
  shows "w1 = w"
  using assms by (auto simp: mkdir_parents_def split: sum.splits)

text \<open>
  The cache check leaves the world as it is, and looks only at the two cache files, which
  the creation of the directory does not touch.
\<close>

lemma check_cache_frame:
  "check_cache ext text cached_audio cached_timing w = (r, w') \<Longrightarrow> w' = w"
  by (cases "print ext (Using_cached (take 50 text))")
     (auto simp: check_cache_def bind_io_def print_io_def return_io_def
           split: if_splits sum.splits option.splits)

lemma check_cache_fs:
  assumes "fs w1 cached_audio = fs w cached_audio" "fs w1 cached_timing = fs w cached_timing"
  shows "fst (check_cache ext text cached_audio cached_timing w1) =
         fst (check_cache ext text cached_audio cached_timing w)"
  using assms
  by (cases "print ext (Using_cached (take 50 text))")
     (auto simp: check_cache_def bind_io_def print_io_def return_io_def path_exists_def
           read_cached_def read_text_def split: sum.splits option.splits)

lemma check_cache_after_mkdir:
  assumes "mkdir_parents (parent output_path) w = (r, w1)"
    and "check_cache ext text (cached_audio_path output_path k)
           (cached_timing_path output_path k) w = (c, w)"
  shows "check_cache ext text (cached_audio_path output_path k)
           (cached_timing_path output_path k) w1 = (c, w1)"
proof -
  have "fs w1 (cached_audio_path output_path k) = fs w (cached_audio_path output_path k)"
    by (rule mkdir_parents_below [OF assms(1)]) (simp add: cached_audio_path_def)
  moreover
  have "fs w1 (cached_timing_path output_path k) = fs w (cached_timing_path output_path k)"
    by (rule mkdir_parents_below [OF assms(1)]) (simp add: cached_timing_path_def)
  ultimately have "fst (check_cache ext text (cached_audio_path output_path k)
           (cached_timing_path output_path k) w1) = c"
    using check_cache_fs [of w1 _ w _ ext "text"] assms(2) by simp
  then show ?thesis
    by (metis check_cache_frame prod.collapse)
qed

lemma check_cache_total:
  "check_cache ext text cached_audio cached_timing w =
     (fst (check_cache ext text cached_audio cached_timing w), w)"
  by (metis check_cache_frame prod.collapse)

lemma check_cache_hit:
  assumes "path_exists (fs w) cached_audio" "path_exists (fs w) cached_timing"
    and "print ext (Using_cached (take 50 text)) = None"
    and "read_cached ext (fs w) text cached_audio cached_timing = Inr r"
  shows "check_cache ext text cached_audio cached_timing w = (Inr (Some r), w)"
  using assms by (simp add: check_cache_def)

lemma check_cache_corrupt:
  assumes "path_exists (fs w) cached_audio" "path_exists (fs w) cached_timing"
    and "print ext (Using_cached (take 50 text)) = None"
    and "read_cached ext (fs w) text cached_audio cached_timing = Inl e"
    and "print ext (Cache_read_error e) = None"
  shows "check_cache ext text cached_audio cached_timing w = (Inr None, w)"
  using assms by (simp add: check_cache_def return_io_def)

lemma check_cache_found:
  assumes "check_cache ext text cached_audio cached_timing w = (Inr (Some r), w')"
  shows "read_cached ext (fs w) text cached_audio cached_timing = Inr r"
  using assms
  by (cases "print ext (Using_cached (take 50 text))")
     (auto simp: check_cache_def bind_io_def print_io_def return_io_def
           split: if_splits sum.splits option.splits)

lemma check_cache_not_found:
  assumes "check_cache ext text cached_audio cached_timing w = (Inr None, w')"
    and "path_exists (fs w) cached_audio" "path_exists (fs w) cached_timing"
  shows "\<exists>e. read_cached ext (fs w) text cached_audio cached_timing = Inl e"
  using assms
  by (cases "print ext (Using_cached (take 50 text))")
     (auto simp: check_cache_def bind_io_def print_io_def return_io_def
           split: if_splits sum.splits option.splits)

text \<open>
  The five ways a call can go: the directory cannot be created, there is no API key, a
  message of the cache check cannot be printed, the cache is hit, or the audio is
  synthesized.
\<close>

lemma generate_voiceover_cases:
  obtains (mkdir_fails) e where
      "mkdir_parents (parent output_path) w = (Inl e, w)"
      "generate_voiceover ext text output_path voice_id retries w = (Inl e, w)"
  | (no_key) w1 where
      "mkdir_parents (parent output_path) w = (Inr (), w1)"
      "\<not> truthy (get_api_key (getenv ext))"
      "generate_voiceover ext text output_path voice_id retries w = (Inl ValueError, w1)"
  | (check_raises) w1 cache_key e where
      "mkdir_parents (parent output_path) w = (Inr (), w1)"
      "truthy (get_api_key (getenv ext))"
      "get_cache_key text voice_id = Inr cache_key"
      "check_cache ext text (cached_audio_path output_path cache_key)
         (cached_timing_path output_path cache_key) w = (Inl e, w)"
      "generate_voiceover ext text output_path voice_id retries w = (Inl e, w1)"
  | (hit) w1 cache_key r where
      "mkdir_parents (parent output_path) w = (Inr (), w1)"
      "truthy (get_api_key (getenv ext))"
      "get_cache_key text voice_id = Inr cache_key"
      "check_cache ext text (cached_audio_path output_path cache_key)
         (cached_timing_path output_path cache_key) w = (Inr (Some r), w)"
      "generate_voiceover ext text output_path voice_id retries w = (Inr r, w1)"
  | (miss) w1 cache_key where
      "mkdir_parents (parent output_path) w = (Inr (), w1)"
      "truthy (get_api_key (getenv ext))"
      "get_cache_key text voice_id = Inr cache_key"
      "check_cache ext text (cached_audio_path output_path cache_key)
         (cached_timing_path output_path cache_key) w = (Inr None, w)"
      "generate_voiceover ext text output_path voice_id retries w =
       synthesize ext text output_path (cached_audio_path output_path cache_key)
         (cached_timing_path output_path cache_key) retries w1"
proof (cases "mkdir_parents (parent output_path) w")
  case (Pair r0 w1)
  show ?thesis
  proof (cases r0)
    case (Inl e)
    with Pair have "w1 = w" by (auto dest: mkdir_parents_fails)
    with Pair Inl have mk: "mkdir_parents (parent output_path) w = (Inl e, w)" by simp
    then have "generate_voiceover ext text output_path voice_id retries w = (Inl e, w)"
      by (simp add: generate_voiceover_def bind_io_def)
    with mk show ?thesis by (rule mkdir_fails)
  next
    case (Inr u)
    with Pair have mk: "mkdir_parents (parent output_path) w = (Inr (), w1)" by simp
    show ?thesis
    proof (cases "truthy (get_api_key (getenv ext))")
      case False
      with mk have "generate_voiceover ext text output_path voice_id retries w =
                    (Inl ValueError, w1)"
        by (simp add: generate_voiceover_def bind_io_def raise_io_def)
      with mk False show ?thesis by (rule no_key)
    next
      case True
      let ?k = "hexdigest (sha256 (dumps_cache_data text voice_id))"
      let ?ca = "cached_audio_path output_path ?k"
      let ?ct = "cached_timing_path output_path ?k"
      have ck: "get_cache_key text voice_id = Inr ?k" by (rule get_cache_key_eq)
      obtain c where c: "check_cache ext text ?ca ?ct w = (c, w)"
        using check_cache_total by blast
      from check_cache_after_mkdir [OF mk c]
      have c1: "check_cache ext text ?ca ?ct w1 = (c, w1)" .
      have g: "generate_voiceover ext text output_path voice_id retries w =
               (case c of Inl e \<Rightarrow> (Inl e, w1)
                | Inr None \<Rightarrow> synthesize ext text output_path ?ca ?ct retries w1
                | Inr (Some r) \<Rightarrow> (Inr r, w1))"
        using mk True ck c1
        by (simp add: generate_voiceover_def bind_io_def lift_io_def return_io_def Let_def
            split: sum.splits option.splits)
      show ?thesis
      proof (cases c)
        case (Inl e)
        with mk True ck c g show ?thesis by (auto intro: check_raises)
      next
        case (Inr found)
        show ?thesis
        proof (cases found)
          case None
          with Inr mk True ck c g show ?thesis by (auto intro: miss)
        next
          case (Some r)
          with Inr mk True ck c g show ?thesis by (auto intro: hit)
        qed
      qed
    qed
  qed
qed


lemma generate_voiceover_miss:
  assumes "mkdir_parents (parent output_path) w = (Inr (), w1)"
    and "truthy (get_api_key (getenv ext))"
    and "get_cache_key text voice_id = Inr cache_key"
    and "check_cache ext text (cached_audio_path output_path cache_key)
           (cached_timing_path output_path cache_key) w = (Inr None, w)"
  shows "generate_voiceover ext text output_path voice_id retries w =
         synthesize ext text output_path (cached_audio_path output_path cache_key)
           (cached_timing_path output_path cache_key) retries w1"
  using assms(1-3) check_cache_after_mkdir [OF assms(1) assms(4)]
  by (simp add: generate_voiceover_def bind_io_def lift_io_def Let_def)

lemma all_attempts_fail:
  assumes "mkdir_parents (parent output_path) w = (Inr (), w1)"
    and "truthy (get_api_key (getenv ext))"
    and "get_cache_key text voice_id = Inr cache_key"
    and "check_cache ext text (cached_audio_path output_path cache_key)
           (cached_timing_path output_path cache_key) w = (Inr None, w)"
    and "0 < retries"
    and "\<forall>i<nat retries.
           print ext (Generating (i + 1) retries (take 50 text)) = None \<and>
           (\<exists>e. early_error ext (post ext (posts w + i)) = Some e \<and>
                print ext (Attempt_failed (i + 1) e) = None)"
    and "print ext Retrying = None"
  shows "generate_voiceover ext text output_path voice_id retries w =
         (Inl (Failed_after retries (early_error ext (post ext (posts w + (nat retries - 1))))),
          w1\<lparr>posts := posts w + nat retries\<rparr>)"
proof -
  have p: "posts w1 = posts w"
    by (rule mkdir_parents_frame(1) [OF assms(1)])
  have "\<forall>i. 0 \<le> i \<and> i < nat retries \<longrightarrow>
          print ext (Generating (i + 1) retries (take 50 text)) = None \<and>
          (\<exists>e. early_error ext (post ext (posts w1 + (i - 0))) = Some e \<and>
               print ext (Attempt_failed (i + 1) e) = None)"
    using assms(6) p by simp
  from retry_loop_all_fail [OF refl this assms(7), of output_path
      "cached_audio_path output_path cache_key" "cached_timing_path output_path cache_key" None]
    assms(5) p
  show ?thesis
    unfolding generate_voiceover_miss [OF assms(1-4)] synthesize_def by simp
qed

text \<open>
  The definitions to unfold when a call is evaluated on the example inputs.
\<close>

lemmas eval_generate =
  generate_voiceover_def bind_io_def lift_io_def return_io_def raise_io_def mkdir_parents_def
  parent_def name_of_def truthy_def get_api_key_def py_or_def get_cache_key_eq
  cached_audio_path_def cached_timing_path_def check_cache_def print_io_def path_exists_def
  read_cached_def read_text_def synthesize_def attempt_body_def request_json_def
  subscript_audio_base64_def write_file_def with_suffix_def suffix_of_def
  cache_for_future_use_def get_or_def empty_alignment_def calculate_cost_def
  upt_conv_Cons Let_def

lemmas eval_demo =
  demo_text_def demo_voice_def demo_output_def demo_env_def demo_alignment_def
  good_response_def demo_world_def good_service_def hi_there_def demo_times_rate_def

lemmas eval_demo2 =
  demo_key_def demo_dirs_def failing_transport_def no_audio_response_def malformed_service_def
  flaky_service_def cache_with_def truncated_json_def demo_loads_def silent_response_def
  silent_service_def transport_error_def malformed_success_def early_error_def
  pipe_closed_after_first_line_def pipe_closed_at_cache_error_def

text \<open>
  What the retry loop can raise and return, and the fields of every result.
\<close>

lemma retry_loop_error:
  "retry_loop prnt body retries atts last_error w = (Inl e, w') \<Longrightarrow>
   (\<exists>cause. e = Failed_after retries cause) \<or> (\<exists>m. prnt m = Some e)"
proof (induction atts arbitrary: w last_error)
  case Nil
  then show ?case by auto
next
  case (Cons a atts)
  show ?case
  proof (cases "body a w")
    case (Pair r w1)
    show ?thesis
    proof (cases r)
      case (Inl e1)
      show ?thesis
      proof (cases "prnt (Attempt_failed (a + 1) e1)")
        case (Some e2)
        with Pair Inl Cons.prems have "e = e2" by simp
        with Some show ?thesis by blast
      next
        case None
        show ?thesis
        proof (cases "prnt Retrying")
          case (Some e3)
          show ?thesis
          proof (cases "int a < retries - 1")
            case True
            with Pair Inl None Some Cons.prems have "e = e3" by simp
            with Some show ?thesis by blast
          next
            case False
            with Pair Inl None Cons.prems
            have "retry_loop prnt body retries atts (Some e1) w1 = (Inl e, w')" by simp
            then show ?thesis by (rule Cons.IH)
          qed
        next
          case no_raise: None
          from Pair Inl None no_raise Cons.prems
          have "retry_loop prnt body retries atts (Some e1) w1 = (Inl e, w')"
            by (simp split: if_splits)
          then show ?thesis by (rule Cons.IH)
        qed
      qed
    next
      case (Inr x)
      with Pair Cons.prems show ?thesis by simp
    qed
  qed
qed

lemma retry_loop_result:
  "retry_loop prnt body retries atts last_error w = (Inr r, w') \<Longrightarrow>
   \<exists>a w0. body a w0 = (Inr r, w')"
proof (induction atts arbitrary: w last_error)
  case Nil
  then show ?case by simp
next
  case (Cons a atts)
  show ?case
  proof (cases "body a w")
    case (Pair r1 w1)
    show ?thesis
    proof (cases r1)
      case (Inl e1)
      with Pair Cons.prems have "retry_loop prnt body retries atts (Some e1) w1 = (Inr r, w')"
        by (auto split: option.splits if_splits)
      then show ?thesis by (rule Cons.IH)
    next
      case (Inr x)
      with Pair Cons.prems have "body a w = (Inr r, w')" by simp
      then show ?thesis by blast
    qed
  qed
qed

lemma retry_loop_first:
  "body a w = (Inr r, w') \<Longrightarrow>
   retry_loop prnt body retries (a # atts) last_error w = (Inr r, w')"
  by simp

lemma synthesize_first_attempt:
  assumes "0 < retries"
    and "attempt_body ext text output_path cached_audio cached_timing retries 0 w = (Inr r, w')"
  shows "synthesize ext text output_path cached_audio cached_timing retries w = (Inr r, w')"
proof -
  from assms(1) have "[0..<nat retries] = 0 # [1..<nat retries]"
    by (simp add: upt_conv_Cons)
  with assms(2) show ?thesis by (simp add: synthesize_def)
qed

text \<open>
  Writing a file leaves every other file a file, and printing changes nothing.
\<close>

lemma write_file_written:
  assumes "write_file p data w = (Inr u, w')"
  shows "fs w' = (fs w)(p \<mapsto> File data)" and "posts w' = posts w"
  using assms by (auto simp: write_file_def split: if_splits option.splits node.splits)

lemma print_io_world:
  assumes "print_io ext m w = (r, w')"
  shows "w' = w"
  using assms by (auto simp: print_io_def split: option.splits)

lemma cache_for_future_use_keeps:
  assumes "cache_for_future_use cached_audio cached_timing audio_bytes timing_text w = (Inr u, w')"
    and "fs w p = Some (File c)"
  shows "\<exists>c'. fs w' p = Some (File c')"
  using assms
  by (auto simp: cache_for_future_use_def bind_io_def write_file_def
           split: if_splits option.splits node.splits sum.splits prod.splits)

lemma attempt_body_result:
  assumes "attempt_body ext text output_path cached_audio cached_timing retries attempt w =
           (Inr r, w')"
  shows "audio_path r = output_path \<and> \<not> from_cache r \<and>
         cost r = times_rate ext (length text) \<and> character_count r = length text"
  using assms unfolding attempt_body_def
  by (auto simp: Let_def return_io_def calculate_cost_def elim!: bind_io_Inr_elim)

lemma writes_keep_output:
  assumes "write_file output_path audio_bytes w2 = (Inr u1, w3)"
    and "write_file timing_file timing_text w3 = (Inr u2, w4)"
    and "cache_for_future_use cached_audio cached_timing audio_bytes timing_text w4 =
         (Inr u3, w5)"
  shows "\<exists>c. fs w5 output_path = Some (File c)"
proof -
  from write_file_written(1) [OF assms(1)]
  have "fs w3 output_path = Some (File audio_bytes)" by simp
  with write_file_written(1) [OF assms(2)] have "\<exists>c. fs w4 output_path = Some (File c)"
    by auto
  with cache_for_future_use_keeps [OF assms(3)] show ?thesis by blast
qed

lemma attempt_body_writes:
  assumes "attempt_body ext text output_path cached_audio cached_timing retries attempt w =
           (Inr r, w')"
  shows "\<exists>c. fs w' output_path = Some (File c)"
  using assms unfolding attempt_body_def Let_def
  by (elim bind_io_Inr_elim)
     (auto dest!: print_io_world simp: lift_io_def return_io_def intro: writes_keep_output)

lemma read_cached_result:
  assumes "read_cached ext files text cached_audio cached_timing = Inr r"
  shows "audio_path r = cached_audio \<and> from_cache r \<and>
         cost r = times_rate ext (length text) \<and> character_count r = length text"
  using assms
  by (auto simp: read_cached_def calculate_cost_def split: sum.splits json.splits)

lemma synthesize_result:
  assumes "synthesize ext text output_path cached_audio cached_timing retries w = (Inr r, w')"
  shows "audio_path r = output_path \<and> \<not> from_cache r \<and>
         cost r = times_rate ext (length text) \<and> character_count r = length text \<and>
         (\<exists>c. fs w' output_path = Some (File c))"
proof -
  from assms obtain a w0 where
    "attempt_body ext text output_path cached_audio cached_timing retries a w0 = (Inr r, w')"
    unfolding synthesize_def by (blast dest: retry_loop_result)
  from attempt_body_result [OF this] attempt_body_writes [OF this]
  show ?thesis by simp
qed

lemma synthesize_error:
  assumes "synthesize ext text output_path cached_audio cached_timing retries w = (Inl e, w')"
  shows "(\<exists>cause. e = Failed_after retries cause) \<or> (\<exists>m. print ext m = Some e)"
  using assms unfolding synthesize_def by (rule retry_loop_error)


text \<open>
  A response of either class of failure is an early error of the attempt.
\<close>

lemma transport_error_early:
  "transport_error r = Some e \<Longrightarrow> early_error ext r = Some e"
  by (auto simp: early_error_def)

lemma malformed_success_early:
  "malformed_success ext r = Some e \<Longrightarrow> early_error ext r = Some e"
  by (cases r) (auto simp: early_error_def malformed_success_def transport_error_def)


text \<open>
  An attempt whose request is answered with audio that decodes, whose word timings can be
  extracted, and whose files can be written, when the audio is in the cache already:
  it writes the audio and the timing file and returns the fresh result.
\<close>

lemma with_suffix_parent:
  assumes "with_suffix p suffix = Inr q"
  shows "p \<noteq> []" and "parent q = parent p" and "length q = length p"
  using assms
  by (auto simp: with_suffix_def parent_def Let_def split: if_splits)

lemma attempt_body_success:
  assumes "print ext (Generating (attempt + 1) retries (take 50 text)) = None"
    and "post ext (posts w) = Json_body result"
    and "audio_base64 result = Some encoded"
    and "b64decode ext encoded = Inr audio_bytes"
    and "fs w output_path \<noteq> Some Dir"
    and "fs w (parent output_path) = Some Dir"
    and "print ext (Audio_saved (name_of output_path) (length audio_bytes)) = None"
    and "extract_word_timings
           (get_or (al_characters (get_or (alignment result) empty_alignment)) [])
           (get_or (al_character_start_times_seconds
                      (get_or (alignment result) empty_alignment)) [])
           (get_or (al_character_end_times_seconds
                      (get_or (alignment result) empty_alignment)) []) = Inr wts"
    and "with_suffix output_path (str ''.timing.json'') = Inr timing_file"
    and "fs w timing_file \<noteq> Some Dir"
    and "path_exists (fs w) cached_audio"
    and "print ext (Cost_message (times_rate ext (length text)) (length text)) = None"
  shows "attempt_body ext text output_path cached_audio cached_timing retries attempt w =
         (Inr \<lparr>audio_path = output_path, word_timings = wts,
               character_alignment = get_or (alignment result) empty_alignment,
               cost = times_rate ext (length text), character_count = length text,
               from_cache = False\<rparr>,
          \<lparr>fs = (fs w)(output_path \<mapsto> File audio_bytes,
                        timing_file \<mapsto> File (json_dumps ext
                          \<lparr>td_text = Some text, td_word_timings = Some wts,
                           td_character_alignment =
                             Some (get_or (alignment result) empty_alignment)\<rparr>)),
           posts = posts w + 1\<rparr>)"
proof -
  let ?w1 = "w\<lparr>posts := posts w + 1\<rparr>"
  let ?w2 = "?w1\<lparr>fs := (fs w)(output_path \<mapsto> File audio_bytes)\<rparr>"
  let ?data = "json_dumps ext
                 \<lparr>td_text = Some text, td_word_timings = Some wts,
                  td_character_alignment = Some (get_or (alignment result) empty_alignment)\<rparr>"
  let ?w3 = "?w2\<lparr>fs := (fs w)(output_path \<mapsto> File audio_bytes, timing_file \<mapsto> File ?data)\<rparr>"
  have rq: "request_json ext w = (Inr result, ?w1)"
    using assms(2) by (simp add: request_json_def Let_def)
  have sb: "subscript_audio_base64 result = Inr encoded"
    using assms(3) by (simp add: subscript_audio_base64_def)
  have w1: "write_file output_path audio_bytes ?w1 = (Inr (), ?w2)"
    using assms(5,6) by (simp add: write_file_def)
  have pt: "parent timing_file = parent output_path"
    by (rule with_suffix_parent(2) [OF assms(9)])
  have ne: "parent output_path \<noteq> output_path"
    using with_suffix_parent(1) [OF assms(9)]
    by (metis parent_def length_butlast diff_less length_greater_0_conv less_irrefl zero_less_one)
  then have "parent timing_file \<noteq> output_path" using pt by simp
  then have w2: "write_file timing_file ?data ?w2 = (Inr (), ?w3)"
    using assms(6,10) pt by (simp add: write_file_def)
  have cf: "cache_for_future_use cached_audio cached_timing audio_bytes ?data ?w3 = (Inr (), ?w3)"
    using assms(11) by (auto simp: cache_for_future_use_def path_exists_def)
  show ?thesis
    unfolding attempt_body_def
    using assms(1,4,7,8,9,12) rq sb w1 w2 cf
    by (simp add: bind_io_def print_io_def lift_io_def Let_def return_io_def
          calculate_cost_def)
qed


subsection \<open>The claims\<close>

text \<open>
  C3 (as the code behaves). With \<open>retries = 3\<close>, on a cache miss, when each of the three
  requests fails with a transport error and every progress message is printed,
  \<open>generate_voiceover\<close> makes exactly three requests and then raises the exception of its
  last line, a plain \<open>Exception\<close> whose message carries the attempt count 3 and the error of
  the last attempt.
\<close>

theorem three_transport_errors_exhaust_retries:
  assumes "mkdir_parents (parent output_path) w = (Inr (), w1)"
    and "truthy (get_api_key (getenv ext))"
    and "get_cache_key text voice_id = Inr cache_key"
    and "check_cache ext text (cached_audio_path output_path cache_key)
           (cached_timing_path output_path cache_key) w = (Inr None, w)"
    and "\<forall>i<3. print ext (Generating (i + 1) 3 (take 50 text)) = None \<and>
               (\<exists>e. transport_error (post ext (posts w + i)) = Some e \<and>
                    print ext (Attempt_failed (i + 1) e) = None)"
    and "print ext Retrying = None"
  shows "generate_voiceover ext text output_path voice_id 3 w =
         (Inl (Failed_after 3 (transport_error (post ext (posts w + 2)))),
          w1\<lparr>posts := posts w + 3\<rparr>)"
proof -
  have all: "\<forall>i<nat 3. print ext (Generating (i + 1) 3 (take 50 text)) = None \<and>
               (\<exists>e. early_error ext (post ext (posts w + i)) = Some e \<and>
                    print ext (Attempt_failed (i + 1) e) = None)"
    using assms(5) by (auto dest: transport_error_early)
  from assms(5) obtain e where "transport_error (post ext (posts w + 2)) = Some e"
    by (metis numeral_2_eq_2 numeral_3_eq_3 lessI)
  then have "early_error ext (post ext (posts w + 2)) =
             transport_error (post ext (posts w + 2))"
    by (simp add: transport_error_early)
  then show ?thesis
    using all_attempts_fail [OF assms(1-4) _ all assms(6)] by simp
qed

text \<open>
  The example call against a service whose every request raises, with an output that
  prints every message: three requests, then the exception with count 3 and the third
  request's error.
\<close>

theorem three_transport_errors_exhaust_retries_witness:
  "mkdir_parents (parent demo_output) demo_world = (Inr (), \<lparr>fs = demo_dirs, posts = 0\<rparr>) \<and>
   truthy (get_api_key (getenv failing_transport)) \<and>
   get_cache_key demo_text demo_voice = Inr demo_key \<and>
   check_cache failing_transport demo_text (cached_audio_path demo_output demo_key)
     (cached_timing_path demo_output demo_key) demo_world = (Inr None, demo_world) \<and>
   print failing_transport = (\<lambda>m. None) \<and>
   transport_error (post failing_transport (posts demo_world + 0)) = Some (RequestException 0) \<and>
   transport_error (post failing_transport (posts demo_world + 1)) = Some (RequestException 1) \<and>
   transport_error (post failing_transport (posts demo_world + 2)) = Some (RequestException 2) \<and>
   generate_voiceover failing_transport demo_text demo_output demo_voice 3 demo_world =
     (Inl (Failed_after 3 (Some (RequestException 2))), \<lparr>fs = demo_dirs, posts = 3\<rparr>)"
proof -
  have mk: "mkdir_parents (parent demo_output) demo_world = (Inr (), \<lparr>fs = demo_dirs, posts = 0\<rparr>)"
    by (simp add: eval_generate eval_demo eval_demo2)
  have key: "truthy (get_api_key (getenv failing_transport))"
    by (simp add: eval_generate eval_demo eval_demo2 str_def)
  have ck: "get_cache_key demo_text demo_voice = Inr demo_key"
    by (simp add: get_cache_key_eq demo_key_def)
  have miss: "check_cache failing_transport demo_text (cached_audio_path demo_output demo_key)
     (cached_timing_path demo_output demo_key) demo_world = (Inr None, demo_world)"
    by (simp add: check_cache_def path_exists_def demo_world_def)
  have pr: "print failing_transport = (\<lambda>m. None)"
    by (simp add: failing_transport_def good_service_def)
  have fail: "\<forall>i<3. print failing_transport (Generating (i + 1) 3 (take 50 demo_text)) = None \<and>
               (\<exists>e. transport_error (post failing_transport (posts demo_world + i)) = Some e \<and>
                    print failing_transport (Attempt_failed (i + 1) e) = None)"
    by (simp add: pr) (simp add: failing_transport_def transport_error_def)
  have rt: "print failing_transport Retrying = None"
    by (simp add: pr)
  from three_transport_errors_exhaust_retries [OF mk key ck miss fail rt] mk key ck miss pr
  show ?thesis by (simp add: eval_demo eval_demo2)
qed

text \<open>
  C3 as stated fails. Here the first request fails with a transport error, and the
  standard output was closed after the first line: the message of the handler raises
  \<open>BrokenPipeError\<close>, which leaves the function after one request; no second attempt is
  made and the exception is not the one that carries the attempt count.
\<close>

theorem transport_error_then_closed_output:
  "check_cache (failing_transport\<lparr>print := pipe_closed_after_first_line\<rparr>) demo_text
     (cached_audio_path demo_output demo_key) (cached_timing_path demo_output demo_key)
     demo_world = (Inr None, demo_world) \<and>
   transport_error (post (failing_transport\<lparr>print := pipe_closed_after_first_line\<rparr>) 0) =
     Some (RequestException 0) \<and>
   generate_voiceover (failing_transport\<lparr>print := pipe_closed_after_first_line\<rparr>)
     demo_text demo_output demo_voice 3 demo_world =
     (Inl BrokenPipeError, \<lparr>fs = demo_dirs, posts = 1\<rparr>)"
  by (simp add: eval_generate eval_demo eval_demo2 str_def)

text \<open>
  C2 (as the code behaves). A successful response whose payload is absent or malformed
  fails only the attempt it occurs in, and is retried like any other failure: on a cache
  miss, when each of the \<open>retries\<close> responses is such a response and every progress message
  is printed, \<open>generate_voiceover\<close> makes all \<open>retries\<close> requests and then raises the
  exception that carries the attempt count and the error of the last attempt.
\<close>

theorem malformed_responses_are_retried:
  assumes "mkdir_parents (parent output_path) w = (Inr (), w1)"
    and "truthy (get_api_key (getenv ext))"
    and "get_cache_key text voice_id = Inr cache_key"
    and "check_cache ext text (cached_audio_path output_path cache_key)
           (cached_timing_path output_path cache_key) w = (Inr None, w)"
    and "0 < retries"
    and "\<forall>i<nat retries.
           print ext (Generating (i + 1) retries (take 50 text)) = None \<and>
           (\<exists>e. malformed_success ext (post ext (posts w + i)) = Some e \<and>
                print ext (Attempt_failed (i + 1) e) = None)"
    and "print ext Retrying = None"
  shows "generate_voiceover ext text output_path voice_id retries w =
         (Inl (Failed_after retries
                 (malformed_success ext (post ext (posts w + (nat retries - 1))))),
          w1\<lparr>posts := posts w + nat retries\<rparr>)"
proof -
  have all: "\<forall>i<nat retries. print ext (Generating (i + 1) retries (take 50 text)) = None \<and>
               (\<exists>e. early_error ext (post ext (posts w + i)) = Some e \<and>
                    print ext (Attempt_failed (i + 1) e) = None)"
    using assms(6) by (auto dest: malformed_success_early)
  from assms(5) have "nat retries - 1 < nat retries" by simp
  with assms(6) obtain e where
    "malformed_success ext (post ext (posts w + (nat retries - 1))) = Some e"
    by blast
  then have "early_error ext (post ext (posts w + (nat retries - 1))) =
             malformed_success ext (post ext (posts w + (nat retries - 1)))"
    by (simp add: malformed_success_early)
  then show ?thesis
    using all_attempts_fail [OF assms(1-5) all assms(7)] by simp
qed

text \<open>
  The example call against a service whose every response lacks \<open>audio_base64\<close>.
\<close>

theorem malformed_responses_are_retried_witness:
  "mkdir_parents (parent demo_output) demo_world = (Inr (), \<lparr>fs = demo_dirs, posts = 0\<rparr>) \<and>
   truthy (get_api_key (getenv malformed_service)) \<and>
   get_cache_key demo_text demo_voice = Inr demo_key \<and>
   check_cache malformed_service demo_text (cached_audio_path demo_output demo_key)
     (cached_timing_path demo_output demo_key) demo_world = (Inr None, demo_world) \<and>
   print malformed_service = (\<lambda>m. None) \<and>
   malformed_success malformed_service (post malformed_service (posts demo_world + 0)) =
     Some KeyError \<and>
   malformed_success malformed_service (post malformed_service (posts demo_world + 1)) =
     Some KeyError \<and>
   malformed_success malformed_service (post malformed_service (posts demo_world + 2)) =
     Some KeyError \<and>
   generate_voiceover malformed_service demo_text demo_output demo_voice 3 demo_world =
     (Inl (Failed_after 3 (Some KeyError)), \<lparr>fs = demo_dirs, posts = 3\<rparr>)"
proof -
  have mk: "mkdir_parents (parent demo_output) demo_world = (Inr (), \<lparr>fs = demo_dirs, posts = 0\<rparr>)"
    by (simp add: eval_generate eval_demo eval_demo2)
  have key: "truthy (get_api_key (getenv malformed_service))"
    by (simp add: eval_generate eval_demo eval_demo2 str_def)
  have ck: "get_cache_key demo_text demo_voice = Inr demo_key"
    by (simp add: get_cache_key_eq demo_key_def)
  have miss: "check_cache malformed_service demo_text (cached_audio_path demo_output demo_key)
     (cached_timing_path demo_output demo_key) demo_world = (Inr None, demo_world)"
    by (simp add: check_cache_def path_exists_def demo_world_def)
  have pr: "print malformed_service = (\<lambda>m. None)"
    by (simp add: malformed_service_def good_service_def)
  have pos: "(0::int) < 3" by simp
  have fail: "\<forall>i<nat 3.
           print malformed_service (Generating (i + 1) 3 (take 50 demo_text)) = None \<and>
           (\<exists>e. malformed_success malformed_service
                  (post malformed_service (posts demo_world + i)) = Some e \<and>
                print malformed_service (Attempt_failed (i + 1) e) = None)"
    by (simp add: pr) (simp add: eval_demo eval_demo2)
  have rt: "print malformed_service Retrying = None"
    by (simp add: pr)
  from malformed_responses_are_retried [OF mk key ck miss pos fail rt] mk key ck miss pr
  show ?thesis by (simp add: eval_demo eval_demo2)
qed

text \<open>
  C2 as stated fails: the first response of this service is a success without
  \<open>audio_base64\<close>, and the call goes on to a second request and returns its result.
\<close>

theorem malformed_response_then_success:
  "malformed_success flaky_service (post flaky_service 0) = Some KeyError \<and>
   fst (generate_voiceover flaky_service demo_text demo_output demo_voice 3 demo_world) =
     Inr \<lparr>audio_path = demo_output,
          word_timings =
            [\<lparr>wt_text = str ''hi'', wt_start = 0, wt_end = 2,
              char_start_index = 0, char_end_index = 1\<rparr>,
             \<lparr>wt_text = str ''there'', wt_start = 3, wt_end = 8,
              char_start_index = 3, char_end_index = 7\<rparr>],
          character_alignment = demo_alignment,
          cost = 5534023222112865 / 2305843009213693952,
          character_count = 8,
          from_cache = False\<rparr> \<and>
   posts (snd (generate_voiceover flaky_service demo_text demo_output demo_voice 3 demo_world)) = 2"
  by (simp add: eval_generate eval_demo eval_demo2 eval_extract)




text \<open>
  C8 (as the code behaves). When both cache files exist but the timing file cannot be
  read or does not parse to a dictionary, and the two messages of the cache check are
  printed, the call goes on exactly as on a cache miss: its outcome is that of the
  synthesis. If the first attempt succeeds, the audio and the timing file are written
  and the fresh result is returned after one request; whenever the call returns, the
  result is a fresh one and the output file has been written. The call can still fail,
  with the final exception of the retry loop or with what a \<open>print\<close> raises.
\<close>

theorem corrupt_cache_entry_regenerates:
  assumes "mkdir_parents (parent output_path) w = (Inr (), w1)"
    and "truthy (get_api_key (getenv ext))"
    and "get_cache_key text voice_id = Inr cache_key"
    and "path_exists (fs w) (cached_audio_path output_path cache_key)"
    and "path_exists (fs w) (cached_timing_path output_path cache_key)"
    and "read_cached ext (fs w) text (cached_audio_path output_path cache_key)
           (cached_timing_path output_path cache_key) = Inl e"
    and "print ext (Using_cached (take 50 text)) = None"
    and "print ext (Cache_read_error e) = None"
  shows "generate_voiceover ext text output_path voice_id retries w =
           synthesize ext text output_path (cached_audio_path output_path cache_key)
             (cached_timing_path output_path cache_key) retries w1 \<and>
         (0 < retries \<and>
          print ext (Generating 1 retries (take 50 text)) = None \<and>
          post ext (posts w) = Json_body result \<and>
          audio_base64 result = Some encoded \<and>
          b64decode ext encoded = Inr audio_bytes \<and>
          fs w output_path \<noteq> Some Dir \<and>
          print ext (Audio_saved (name_of output_path) (length audio_bytes)) = None \<and>
          extract_word_timings
            (get_or (al_characters (get_or (alignment result) empty_alignment)) [])
            (get_or (al_character_start_times_seconds
                       (get_or (alignment result) empty_alignment)) [])
            (get_or (al_character_end_times_seconds
                       (get_or (alignment result) empty_alignment)) []) = Inr wts \<and>
          with_suffix output_path (str ''.timing.json'') = Inr timing_file \<and>
          fs w timing_file \<noteq> Some Dir \<and>
          print ext (Cost_message (times_rate ext (length text)) (length text)) = None \<longrightarrow>
          generate_voiceover ext text output_path voice_id retries w =
            (Inr \<lparr>audio_path = output_path, word_timings = wts,
                  character_alignment = get_or (alignment result) empty_alignment,
                  cost = times_rate ext (length text), character_count = length text,
                  from_cache = False\<rparr>,
             \<lparr>fs = (fs w1)(output_path \<mapsto> File audio_bytes,
                            timing_file \<mapsto> File (json_dumps ext
                              \<lparr>td_text = Some text, td_word_timings = Some wts,
                               td_character_alignment =
                                 Some (get_or (alignment result) empty_alignment)\<rparr>)),
               posts = posts w + 1\<rparr>)) \<and>
         (\<forall>r w'. generate_voiceover ext text output_path voice_id retries w = (Inr r, w') \<longrightarrow>
              \<not> from_cache r \<and> audio_path r = output_path \<and>
              (\<exists>content. fs w' output_path = Some (File content))) \<and>
         (\<forall>e' w'. generate_voiceover ext text output_path voice_id retries w = (Inl e', w') \<longrightarrow>
              (\<exists>cause. e' = Failed_after retries cause) \<or> (\<exists>m. print ext m = Some e'))"
proof -
  let ?ca = "cached_audio_path output_path cache_key"
  let ?ct = "cached_timing_path output_path cache_key"
  have miss: "check_cache ext text ?ca ?ct w = (Inr None, w)"
    by (rule check_cache_corrupt [OF assms(4,5,7,6,8)])
  have g: "generate_voiceover ext text output_path voice_id retries w =
           synthesize ext text output_path ?ca ?ct retries w1"
    by (rule generate_voiceover_miss [OF assms(1-3) miss])
  have first: "generate_voiceover ext text output_path voice_id retries w =
            (Inr \<lparr>audio_path = output_path, word_timings = wts,
                  character_alignment = get_or (alignment result) empty_alignment,
                  cost = times_rate ext (length text), character_count = length text,
                  from_cache = False\<rparr>,
             \<lparr>fs = (fs w1)(output_path \<mapsto> File audio_bytes,
                            timing_file \<mapsto> File (json_dumps ext
                              \<lparr>td_text = Some text, td_word_timings = Some wts,
                               td_character_alignment =
                                 Some (get_or (alignment result) empty_alignment)\<rparr>)),
               posts = posts w + 1\<rparr>)"
    if pos: "0 < retries"
      and p1: "print ext (Generating 1 retries (take 50 text)) = None"
      and rs: "post ext (posts w) = Json_body result"
      and au: "audio_base64 result = Some encoded"
      and dc: "b64decode ext encoded = Inr audio_bytes"
      and nd: "fs w output_path \<noteq> Some Dir"
      and p2: "print ext (Audio_saved (name_of output_path) (length audio_bytes)) = None"
      and ex: "extract_word_timings
            (get_or (al_characters (get_or (alignment result) empty_alignment)) [])
            (get_or (al_character_start_times_seconds
                       (get_or (alignment result) empty_alignment)) [])
            (get_or (al_character_end_times_seconds
                       (get_or (alignment result) empty_alignment)) []) = Inr wts"
      and ws: "with_suffix output_path (str ''.timing.json'') = Inr timing_file"
      and nt: "fs w timing_file \<noteq> Some Dir"
      and p3: "print ext (Cost_message (times_rate ext (length text)) (length text)) = None"
  proof -
    have po: "posts w1 = posts w"
      by (rule mkdir_parents_frame(1) [OF assms(1)])
    from with_suffix_parent(1) [OF ws] have lo: "length (parent output_path) < length output_path"
      by (simp add: parent_def)
    with with_suffix_parent(3) [OF ws]
    have lt: "length (parent output_path) < length timing_file" by simp
    have o1: "fs w1 output_path = fs w output_path"
      by (rule mkdir_parents_below [OF assms(1) lo])
    have t1: "fs w1 timing_file = fs w timing_file"
      by (rule mkdir_parents_below [OF assms(1) lt])
    have d1: "fs w1 (parent output_path) = Some Dir"
      by (rule mkdir_parents_dir [OF assms(1)])
    have "fs w1 ?ca = fs w ?ca"
      by (rule mkdir_parents_below [OF assms(1)]) (simp add: cached_audio_path_def)
    with assms(4) have c1: "path_exists (fs w1) ?ca"
      by (simp add: path_exists_def)
    have "attempt_body ext text output_path ?ca ?ct retries 0 w1 =
            (Inr \<lparr>audio_path = output_path, word_timings = wts,
                  character_alignment = get_or (alignment result) empty_alignment,
                  cost = times_rate ext (length text), character_count = length text,
                  from_cache = False\<rparr>,
             \<lparr>fs = (fs w1)(output_path \<mapsto> File audio_bytes,
                            timing_file \<mapsto> File (json_dumps ext
                              \<lparr>td_text = Some text, td_word_timings = Some wts,
                               td_character_alignment =
                                 Some (get_or (alignment result) empty_alignment)\<rparr>)),
               posts = posts w1 + 1\<rparr>)"
      by (rule attempt_body_success [where encoded = encoded])
         (use p1 rs au dc nd p2 ex ws nt p3 po o1 t1 d1 c1 in simp_all)
    from synthesize_first_attempt [OF pos this] po show ?thesis
      unfolding g by simp
  qed
  have res: "\<not> from_cache r \<and> audio_path r = output_path \<and>
             (\<exists>content. fs w' output_path = Some (File content))"
    if "generate_voiceover ext text output_path voice_id retries w = (Inr r, w')" for r w'
    using that synthesize_result [of ext "text" output_path ?ca ?ct retries w1 r w']
    unfolding g by simp
  have err: "(\<exists>cause. e' = Failed_after retries cause) \<or> (\<exists>m. print ext m = Some e')"
    if "generate_voiceover ext text output_path voice_id retries w = (Inl e', w')" for e' w'
    using that synthesize_error [of ext "text" output_path ?ca ?ct retries w1 e' w']
    unfolding g by simp
  from g first res err show ?thesis by blast
qed


text \<open>
  The example call with a cut-off timing file in the cache, against the service that
  answers: the read error is printed, the audio is synthesized with one request, and the
  audio and its timing file are written beside the cache files.
\<close>

theorem corrupt_cache_entry_regenerates_witness:
  "mkdir_parents (parent demo_output) (cache_with truncated_json) =
     (Inr (), \<lparr>fs = (fs (cache_with truncated_json))([] \<mapsto> Dir, [str ''outputs''] \<mapsto> Dir),
               posts = 0\<rparr>) \<and>
   truthy (get_api_key (getenv good_service)) \<and>
   get_cache_key demo_text demo_voice = Inr demo_key \<and>
   path_exists (fs (cache_with truncated_json)) (cached_audio_path demo_output demo_key) \<and>
   path_exists (fs (cache_with truncated_json)) (cached_timing_path demo_output demo_key) \<and>
   read_cached good_service (fs (cache_with truncated_json)) demo_text
     (cached_audio_path demo_output demo_key) (cached_timing_path demo_output demo_key) =
     Inl JSONDecodeError \<and>
   print good_service = (\<lambda>m. None) \<and>
   generate_voiceover good_service demo_text demo_output demo_voice 3
     (cache_with truncated_json) =
     (Inr \<lparr>audio_path = demo_output,
           word_timings =
             [\<lparr>wt_text = str ''hi'', wt_start = 0, wt_end = 2,
               char_start_index = 0, char_end_index = 1\<rparr>,
              \<lparr>wt_text = str ''there'', wt_start = 3, wt_end = 8,
               char_start_index = 3, char_end_index = 7\<rparr>],
           character_alignment = demo_alignment,
           cost = 5534023222112865 / 2305843009213693952,
           character_count = 8,
           from_cache = False\<rparr>,
      \<lparr>fs = (fs (cache_with truncated_json))
              ([] \<mapsto> Dir, [str ''outputs''] \<mapsto> Dir,
               demo_output \<mapsto> File (str ''ABC''),
               [str ''outputs'', str ''section_1.timing.json''] \<mapsto> File (str ''{}'')),
       posts = 1\<rparr>)"
proof -
  let ?w = "cache_with truncated_json"
  let ?w1 = "\<lparr>fs = (fs ?w)([] \<mapsto> Dir, [str ''outputs''] \<mapsto> Dir), posts = 0\<rparr>"
  let ?ca = "cached_audio_path demo_output demo_key"
  let ?ct = "cached_timing_path demo_output demo_key"
  let ?result = "\<lparr>audio_base64 = Some (str ''QUJD''), alignment = Some demo_alignment\<rparr>"
  let ?wts = "[\<lparr>wt_text = str ''hi'', wt_start = 0::int, wt_end = 2,
               char_start_index = 0, char_end_index = 1\<rparr>,
              \<lparr>wt_text = str ''there'', wt_start = 3, wt_end = 8,
               char_start_index = 3, char_end_index = 7\<rparr>]"
  let ?timing_file = "[str ''outputs'', str ''section_1.timing.json'']"
  have mk: "mkdir_parents (parent demo_output) ?w = (Inr (), ?w1)"
    by (simp add: eval_generate eval_demo eval_demo2 str_def)
  have key: "truthy (get_api_key (getenv good_service))"
    by (simp add: eval_generate eval_demo eval_demo2 str_def)
  have ck: "get_cache_key demo_text demo_voice = Inr demo_key"
    by (simp add: get_cache_key_eq demo_key_def)
  have ea: "path_exists (fs ?w) ?ca"
    by (simp add: eval_generate eval_demo cache_with_def)
  have et: "path_exists (fs ?w) ?ct"
    by (simp add: eval_generate eval_demo cache_with_def)
  have rc: "read_cached good_service (fs ?w) demo_text ?ca ?ct = Inl JSONDecodeError"
    by (simp add: eval_generate eval_demo eval_demo2 str_def)
  have pr: "print good_service = (\<lambda>m. None)"
    by (simp add: good_service_def)
  have p1: "print good_service (Using_cached (take 50 demo_text)) = None"
    by (simp add: pr)
  have p2: "print good_service (Cache_read_error JSONDecodeError) = None"
    by (simp add: pr)
  have ex: "extract_word_timings
       (get_or (al_characters (get_or (alignment ?result) empty_alignment)) [])
       (get_or (al_character_start_times_seconds
                  (get_or (alignment ?result) empty_alignment)) [])
       (get_or (al_character_end_times_seconds
                  (get_or (alignment ?result) empty_alignment)) []) = Inr ?wts"
    by (simp add: get_or_def demo_alignment_def hi_there_def eval_extract)
  have ws: "with_suffix demo_output (str ''.timing.json'') = Inr ?timing_file"
    by (simp add: with_suffix_def suffix_of_def demo_output_def str_def)
  have first: "0 < (3::int) \<and>
     print good_service (Generating 1 3 (take 50 demo_text)) = None \<and>
     post good_service (posts ?w) = Json_body ?result \<and>
     audio_base64 ?result = Some (str ''QUJD'') \<and>
     b64decode good_service (str ''QUJD'') = Inr (str ''ABC'') \<and>
     fs ?w demo_output \<noteq> Some Dir \<and>
     print good_service (Audio_saved (name_of demo_output) (length (str ''ABC''))) = None \<and>
     extract_word_timings
       (get_or (al_characters (get_or (alignment ?result) empty_alignment)) [])
       (get_or (al_character_start_times_seconds
                  (get_or (alignment ?result) empty_alignment)) [])
       (get_or (al_character_end_times_seconds
                  (get_or (alignment ?result) empty_alignment)) []) = Inr ?wts \<and>
     with_suffix demo_output (str ''.timing.json'') = Inr ?timing_file \<and>
     fs ?w ?timing_file \<noteq> Some Dir \<and>
     print good_service
       (Cost_message (times_rate good_service (length demo_text)) (length demo_text)) = None"
    unfolding ex ws
    by (simp add: pr)
       (simp add: good_service_def good_response_def cache_with_def demo_output_def
          cached_audio_path_def cached_timing_path_def parent_def)
  from corrupt_cache_entry_regenerates [OF mk key ck ea et rc p1 p2,
      THEN conjunct2, THEN conjunct1, THEN mp, OF first]
  have "generate_voiceover good_service demo_text demo_output demo_voice 3 ?w =
     (Inr \<lparr>audio_path = demo_output, word_timings = ?wts,
           character_alignment = demo_alignment,
           cost = 5534023222112865 / 2305843009213693952,
           character_count = 8, from_cache = False\<rparr>,
      \<lparr>fs = (fs ?w)([] \<mapsto> Dir, [str ''outputs''] \<mapsto> Dir,
               demo_output \<mapsto> File (str ''ABC''),
               ?timing_file \<mapsto> File (str ''{}'')),
       posts = 1\<rparr>)"
    by (simp add: get_or_def good_service_def demo_times_rate_def demo_text_def
          cache_with_def str_def)
  with mk key ck ea et rc pr show ?thesis by simp
qed

text \<open>
  C8 as stated fails: a call that finds a corrupt cache entry can fail. Here both cache
  files exist and the timing file is cut off. Against a service whose every request
  raises, the call fails with the final exception of the retry loop; and with an output
  that raises on the message about the cache, the call fails before any request.
\<close>

theorem corrupt_cache_entry_then_failure:
  "path_exists (fs (cache_with truncated_json)) (cached_audio_path demo_output demo_key) \<and>
   path_exists (fs (cache_with truncated_json)) (cached_timing_path demo_output demo_key) \<and>
   read_cached failing_transport (fs (cache_with truncated_json)) demo_text
     (cached_audio_path demo_output demo_key) (cached_timing_path demo_output demo_key) =
     Inl JSONDecodeError \<and>
   print failing_transport = (\<lambda>m. None) \<and>
   generate_voiceover failing_transport demo_text demo_output demo_voice 3
     (cache_with truncated_json) =
     (Inl (Failed_after 3 (Some (RequestException 2))),
      \<lparr>fs = (fs (cache_with truncated_json))([] \<mapsto> Dir, [str ''outputs''] \<mapsto> Dir),
       posts = 3\<rparr>) \<and>
   generate_voiceover (good_service\<lparr>print := pipe_closed_at_cache_error\<rparr>)
     demo_text demo_output demo_voice 3 (cache_with truncated_json) =
     (Inl BrokenPipeError,
      \<lparr>fs = (fs (cache_with truncated_json))([] \<mapsto> Dir, [str ''outputs''] \<mapsto> Dir),
       posts = 0\<rparr>)"
  by (simp add: eval_generate eval_demo eval_demo2 str_def)

text \<open>
  C10 (as the code behaves). When both cache files of the key exist and the timing file
  parses to a dictionary, the call writes no file and makes no request, and any result it
  returns has the cached audio file as \<open>audio_path\<close>, with \<open>from_cache\<close> set. It does return
  a result when the output directory can be created, an API key is set and the message
  about the cache is printed.
\<close>

theorem cache_hit_writes_nothing:
  assumes "get_cache_key text voice_id = Inr cache_key"
    and "path_exists (fs w) (cached_audio_path output_path cache_key)"
    and "read_text (fs w) (cached_timing_path output_path cache_key) = Inr content"
    and "json_loads ext content = Inr (Json_object timing_data)"
    and "generate_voiceover ext text output_path voice_id retries w = (res, w')"
  shows "(\<forall>p c. fs w' p = Some (File c) \<longleftrightarrow> fs w p = Some (File c)) \<and>
         posts w' = posts w \<and>
         (\<forall>r. res = Inr r \<longrightarrow>
              audio_path r = cached_audio_path output_path cache_key \<and> from_cache r) \<and>
         ((\<exists>w1. mkdir_parents (parent output_path) w = (Inr (), w1)) \<and>
          truthy (get_api_key (getenv ext)) \<and>
          print ext (Using_cached (take 50 text)) = None \<longrightarrow> (\<exists>r. res = Inr r))"
proof -
  let ?ca = "cached_audio_path output_path cache_key"
  let ?ct = "cached_timing_path output_path cache_key"
  from assms(3) have et: "path_exists (fs w) ?ct"
    by (auto simp: read_text_def path_exists_def split: option.splits node.splits)
  from assms(3,4) obtain r0 where r0: "read_cached ext (fs w) text ?ca ?ct = Inr r0"
    by (simp add: read_cached_def)
  show ?thesis
  proof (cases rule: generate_voiceover_cases [of output_path w ext "text" voice_id retries])
    case (mkdir_fails e)
    with assms(5) show ?thesis by auto
  next
    case (no_key w1)
    with assms(5) mkdir_parents_file [OF no_key(1)] mkdir_parents_frame(1) [OF no_key(1)]
    show ?thesis by auto
  next
    case (check_raises w1 k e)
    from check_raises(3) assms(1) have k: "k = cache_key" by simp
    have "print ext (Using_cached (take 50 text)) \<noteq> None"
    proof
      assume "print ext (Using_cached (take 50 text)) = None"
      from check_cache_hit [OF assms(2) et this r0] check_raises(4) k show False by simp
    qed
    with assms(5) check_raises(5)
      mkdir_parents_file [OF check_raises(1)] mkdir_parents_frame(1) [OF check_raises(1)]
    show ?thesis by auto
  next
    case (hit w1 k r)
    from hit(3) assms(1) have k: "k = cache_key" by simp
    from hit(5) assms(5) have "res = Inr r" "w' = w1" by simp_all
    with read_cached_result [OF check_cache_found [OF hit(4)]] k
      mkdir_parents_file [OF hit(1)] mkdir_parents_frame(1) [OF hit(1)]
    show ?thesis by auto
  next
    case (miss w1 k)
    from miss(3) assms(1) have k: "k = cache_key" by simp
    from check_cache_not_found [OF miss(4)] assms(2) et k r0 show ?thesis by auto
  qed
qed

text \<open>
  The example call with an empty object as the cached timing data: the result comes
  from the cache, and only the directories are new.
\<close>

theorem cache_hit_writes_nothing_witness:
  "get_cache_key demo_text demo_voice = Inr demo_key \<and>
   path_exists (fs (cache_with (str ''{}''))) (cached_audio_path demo_output demo_key) \<and>
   read_text (fs (cache_with (str ''{}''))) (cached_timing_path demo_output demo_key) =
     Inr (str ''{}'') \<and>
   json_loads good_service (str ''{}'') =
     Inr (Json_object \<lparr>td_text = None, td_word_timings = None,
                       td_character_alignment = None\<rparr>) \<and>
   generate_voiceover good_service demo_text demo_output demo_voice 3 (cache_with (str ''{}'')) =
     (Inr \<lparr>audio_path = cached_audio_path demo_output demo_key,
           word_timings = [], character_alignment = empty_alignment,
           cost = 5534023222112865 / 2305843009213693952, character_count = 8,
           from_cache = True\<rparr>,
      \<lparr>fs = (fs (cache_with (str ''{}'')))([] \<mapsto> Dir, [str ''outputs''] \<mapsto> Dir),
       posts = 0\<rparr>) \<and>
   fs (cache_with (str ''{}'')) demo_output = None"
proof -
  let ?w = "cache_with (str ''{}'')"
  let ?td = "\<lparr>td_text = None, td_word_timings = None,
              td_character_alignment = None\<rparr> :: int timing_data"
  let ?r = "\<lparr>audio_path = cached_audio_path demo_output demo_key,
           word_timings = [], character_alignment = empty_alignment,
           cost = 5534023222112865 / 2305843009213693952, character_count = 8,
           from_cache = True\<rparr> :: (int, real) voiceover_result"
  let ?w1 = "\<lparr>fs = (fs ?w)([] \<mapsto> Dir, [str ''outputs''] \<mapsto> Dir), posts = 0\<rparr>"
  have ck: "get_cache_key demo_text demo_voice = Inr demo_key"
    by (simp add: get_cache_key_eq demo_key_def)
  have ea: "path_exists (fs ?w) (cached_audio_path demo_output demo_key)"
    by (simp add: eval_generate eval_demo cache_with_def)
  have rd: "read_text (fs ?w) (cached_timing_path demo_output demo_key) = Inr (str ''{}'')"
    by (simp add: eval_generate eval_demo cache_with_def)
  have ld: "json_loads good_service (str ''{}'') = Inr (Json_object ?td)"
    by (simp add: eval_demo eval_demo2)
  have run: "generate_voiceover good_service demo_text demo_output demo_voice 3 ?w = (Inr ?r, ?w1)"
    by (simp add: eval_generate eval_demo eval_demo2 str_def)
  have out: "fs ?w demo_output = None"
    by (simp add: eval_generate eval_demo eval_demo2 str_def)
  from cache_hit_writes_nothing [OF ck ea rd ld run] ck ea rd ld run out
  show ?thesis by simp
qed

text \<open>
  C10 as stated fails: here both cache files exist and the timing file parses, to a list.
  \<open>timing_data.get\<close> raises, the call synthesizes the audio, writes the file at the
  requested output path, and returns that path.
\<close>

theorem cache_hit_on_a_json_list:
  "path_exists (fs (cache_with (str ''[]''))) (cached_audio_path demo_output demo_key) \<and>
   read_text (fs (cache_with (str ''[]''))) (cached_timing_path demo_output demo_key) =
     Inr (str ''[]'') \<and>
   json_loads good_service (str ''[]'') = Inr Json_other \<and>
   fs (cache_with (str ''[]'')) demo_output = None \<and>
   fs (snd (generate_voiceover good_service demo_text demo_output demo_voice 3
              (cache_with (str ''[]'')))) demo_output = Some (File (str ''ABC'')) \<and>
   map_sum id audio_path
     (fst (generate_voiceover good_service demo_text demo_output demo_voice 3
             (cache_with (str ''[]'')))) = Inr demo_output \<and>
   demo_output \<noteq> cached_audio_path demo_output demo_key"
  by (simp add: eval_generate eval_demo eval_demo2 eval_extract)

end
